(* ===== verification/Prelude.thy ===== *)
theory Prelude
  imports Complex_Main "HOL-Library.Sublist"
begin

text \<open>
  Shared vocabulary of the development: the JavaScript string operations the two classes of
  \<^verbatim>\<open>src/website-main/htdocs/js/console-manager.js\<close> call
  (\<^verbatim>\<open>String.prototype.includes\<close>, \<^verbatim>\<open>startsWith\<close>, \<^verbatim>\<open>toLowerCase\<close>,
  \<^verbatim>\<open>substring\<close>), the JavaScript \<^verbatim>\<open>Set\<close> as an insertion-ordered list without
  duplicates, and \<^verbatim>\<open>Math.round\<close>. Strings are the UTF-8 encodings of the JavaScript
  strings as \<open>char list\<close>; because UTF-8 is self-synchronising, substring containment on
  the bytes agrees with containment on the code points. JavaScript numbers are modelled as
  exact rationals (\<open>rat\<close>) or integers where the code only handles whole numbers.
  The collection \<open>js_simps\<close> gathers the equations that evaluate these helpers on concrete
  strings and numbers.
\<close>

named_theorems js_simps "equations evaluating the JavaScript helpers on concrete values"

type_synonym msg = string

subsection \<open>String.prototype.startsWith and String.prototype.includes\<close>

fun starts_with :: "string \<Rightarrow> string \<Rightarrow> bool" where
  "starts_with s [] = True"
| "starts_with [] (c # cs) = False"
| "starts_with (x # xs) (c # cs) = (x = c \<and> starts_with xs cs)"

text \<open>\<open>s.includes(p)\<close>: \<open>p\<close> occurs at some position of \<open>s\<close>; the empty string occurs
  everywhere.\<close>

fun js_includes :: "string \<Rightarrow> string \<Rightarrow> bool" where
  "js_includes [] p = (p = [])"
| "js_includes (x # xs) p = (starts_with (x # xs) p \<or> js_includes xs p)"

subsection \<open>String.prototype.toLowerCase\<close>

definition ascii_lower :: "char \<Rightarrow> char" where
  "ascii_lower c =
     (case map_of (zip ''ABCDEFGHIJKLMNOPQRSTUVWXYZ'' ''abcdefghijklmnopqrstuvwxyz'') c of
        Some d \<Rightarrow> d
      | None \<Rightarrow> c)"

text \<open>
  \<open>js_lower\<close> lower-cases ASCII letters and the two code points whose lower case contains an
  ASCII letter: U+0130 (bytes C4 B0) becomes \<open>i\<close> followed by U+0307 (CC 87), the Kelvin
  sign U+212A (E2 84 AA) becomes \<open>k\<close>. Other non-ASCII bytes are kept: their true lower
  case is again a run of non-ASCII bytes, so the ASCII words contained in the result are the
  same as in JavaScript's \<^verbatim>\<open>toLowerCase()\<close>, which is all the code asks of it.
\<close>

fun js_lower :: "string \<Rightarrow> string" where
  "js_lower [] = []"
| "js_lower (c # cs) =
     (if c = CHR 0xC4 \<and> take 1 cs = [CHR 0xB0]
      then CHR ''i'' # CHR 0xCC # CHR 0x87 # js_lower (drop 1 cs)
      else if c = CHR 0xE2 \<and> take 2 cs = [CHR 0x84, CHR 0xAA]
      then CHR ''k'' # js_lower (drop 2 cs)
      else ascii_lower c # js_lower cs)"

declare js_lower.simps [js_simps] ascii_lower_def [js_simps]

subsection \<open>Set as an insertion-ordered list\<close>

text \<open>A JavaScript \<^verbatim>\<open>Set\<close> iterates in insertion order and \<^verbatim>\<open>add\<close> of a present
  element changes nothing; \<^verbatim>\<open>size\<close> is the length of the list.\<close>

definition set_add :: "'a list \<Rightarrow> 'a \<Rightarrow> 'a list" where
  "set_add S x = (if x \<in> set S then S else S @ [x])"

subsection \<open>Facts about the string helpers\<close>

lemma starts_with_prefix: "starts_with s p \<longleftrightarrow> prefix p s"
  by (induction s p rule: starts_with.induct) auto

lemma includes_sublist: "js_includes s p \<longleftrightarrow> sublist p s"
proof (induction s)
  case Nil
  then show ?case by simp
next
  case (Cons x xs)
  then show ?case by (simp add: sublist_Cons_right starts_with_prefix)
qed

lemma includes_iff: "js_includes s p \<longleftrightarrow> (\<exists>a b. s = a @ p @ b)"
  by (auto simp: includes_sublist sublist_def)

lemma includes_appendI [intro]: "js_includes (a @ p @ b) p"
  by (auto simp: includes_iff)

lemma includes_trans: "js_includes s p \<Longrightarrow> js_includes p q \<Longrightarrow> js_includes s q"
  unfolding includes_sublist by (auto intro: sublist_order.order_trans)

text \<open>Evaluation of \<open>js_includes\<close> on literals is done with the executable equations, not
  with the characterisation by \<open>sublist\<close>.\<close>

lemmas includes_eval [js_simps] = starts_with.simps js_includes.simps

subsection \<open>Facts about sets as lists\<close>

lemma set_add_set [simp]: "set (set_add S x) = insert x (set S)"
  by (auto simp: set_add_def)

lemma set_add_distinct [simp]: "distinct (set_add S x) \<longleftrightarrow> distinct S"
  by (simp add: set_add_def)

lemma set_add_fresh [simp]: "x \<notin> set S \<Longrightarrow> set_add S x = S @ [x]"
  by (simp add: set_add_def)

declare set_add_def [js_simps]

text \<open>A list without duplicates drawn from a finite set is no longer than the set.\<close>

lemma distinct_length_le_card:
  assumes "distinct xs" and "set xs \<subseteq> A" and "finite A"
  shows "length xs \<le> card A"
proof -
  have "length xs = card (set xs)" using assms(1) by (simp add: distinct_card)
  also have "\<dots> \<le> card A" using assms(2,3) by (rule card_mono[rotated])
  finally show ?thesis .
qed

subsection \<open>Math.round\<close>

text \<open>\<^verbatim>\<open>Math.round(x)\<close> is \<open>\<lfloor>x + 1/2\<rfloor>\<close>, rounding halves upwards, which is
  the library's \<open>round\<close>. The lemma below turns a rounded quotient into integer division,
  so that \<open>simp\<close> evaluates rounded values on concrete inputs.\<close>

lemma round_quotient:
  fixes n d :: int
  assumes "0 < d"
  shows "round (of_int n / of_int d :: rat) = (2 * n + d) div (2 * d)"
proof -
  have "of_int n / of_int d + 1 / 2 = (of_int (2 * n + d) / of_int (2 * d) :: rat)"
    using assms by (simp add: field_simps)
  then have "round (of_int n / of_int d :: rat) = \<lfloor>(of_int (2 * n + d) / of_int (2 * d) :: rat)\<rfloor>"
    by (simp only: round_def)
  also have "\<dots> = (2 * n + d) div (2 * d)"
    by (rule floor_divide_of_int_eq)
  finally show ?thesis .
qed

end
