(* ===== verification/Console.thy ===== *)
theory Console
  imports Prelude
begin

text \<open>
  The class \<^verbatim>\<open>ConsoleManager\<close> of \<^verbatim>\<open>src/website-main/htdocs/js/console-manager.js\<close>
  (lines 6--191). The page's console is a record \<open>page_console\<close>: the manager's fields, a
  flag saying whether \<^verbatim>\<open>console.log\<close>, \<^verbatim>\<open>warn\<close> and \<^verbatim>\<open>error\<close> are still the
  manager's wrappers (\<^verbatim>\<open>restore()\<close> puts the originals back), and the lines the original
  console has printed so far. Each wrapper, each method and each \<^verbatim>\<open>window\<close> toggle is one
  operation on that record; \<open>console_step\<close> dispatches the page's calls.
  A console call is modelled by the string of its first argument
  (\<^verbatim>\<open>args[0]?.toString() || ''\<close>), which is all the wrappers inspect.
\<close>

subsection \<open>State\<close>

datatype channel = CLog | CWarn | CError | CInfo

record debug_cats =
  dc_booking :: bool
  dc_auth :: bool
  dc_firebase :: bool
  dc_ui :: bool
  dc_all :: bool

record console_manager =
  suppressedErrors :: "string list"
  productionMode :: bool
  debugCategories :: debug_cats
  suppressPatterns :: "string list"

record page_console =
  manager :: console_manager
  overridden :: bool
  printed :: "(channel \<times> msg) list"

definition default_patterns :: "string list" where
  "default_patterns =
     [''Tracking Prevention'', ''Permissions policy violation'', ''accelerometer'',
      ''streetview.js'', ''common.js'', ''init_embed.js'', ''Permission denied'',
      ''Error getting bookings'', ''Error getting users'', ''absences is not defined'',
      ''firebase-db.js'', ''Google Maps'']"

definition new_ConsoleManager :: console_manager where
  "new_ConsoleManager =
     \<lparr>suppressedErrors = [], productionMode = True,
      debugCategories = \<lparr>dc_booking = False, dc_auth = False, dc_firebase = False,
                         dc_ui = False, dc_all = False\<rparr>,
      suppressPatterns = default_patterns\<rparr>"

text \<open>\<^verbatim>\<open>const consoleManager = new ConsoleManager()\<close>: the constructor runs \<^verbatim>\<open>init()\<close>,
  which installs the three wrappers (and the rejection listener, \<open>rejection_prevented\<close>).\<close>

definition console_boot :: page_console where
  "console_boot = \<lparr>manager = new_ConsoleManager, overridden = True, printed = []\<rparr>"

subsection \<open>Emoji markers, as UTF-8 bytes\<close>

definition check_mark :: string where "check_mark = [CHR 0xE2, CHR 0x9C, CHR 0x85]"
definition siren :: string where "siren = [CHR 0xF0, CHR 0x9F, CHR 0x9A, CHR 0xA8]"
definition cross_mark :: string where "cross_mark = [CHR 0xE2, CHR 0x9D, CHR 0x8C]"
definition wrench :: string where "wrench = [CHR 0xF0, CHR 0x9F, CHR 0x94, CHR 0xA7]"
definition warning_sign :: string where
  "warning_sign = [CHR 0xE2, CHR 0x9A, CHR 0xA0, CHR 0xEF, CHR 0xB8, CHR 0x8F]"

subsection \<open>The console.log wrapper (setupProductionLogging)\<close>

definition important_log :: "msg \<Rightarrow> bool" where
  "important_log m \<longleftrightarrow>
     js_includes m check_mark \<or> js_includes m siren \<or> js_includes m cross_mark \<or>
     js_includes m ''Error'' \<or> js_includes m ''error'' \<or>
     js_includes m ''Success'' \<or> js_includes m ''success''"

text \<open>\<^verbatim>\<open>msg.match(/\[([^\]]+)\]/)?.[1]\<close>: the leftmost \<open>[\<close> followed by a non-empty run
  of characters other than \<open>]\<close> and then \<open>]\<close>; the capture is that run. Since the class
  excludes \<open>]\<close>, the greedy run ends at the first \<open>]\<close> after the bracket.\<close>

fun bracket_capture :: "string \<Rightarrow> string option" where
  "bracket_capture [] = None"
| "bracket_capture (c # cs) =
     (let body = takeWhile (\<lambda>x. x \<noteq> CHR '']'') cs in
      if c = CHR ''['' \<and> body \<noteq> [] \<and> length body < length cs then Some body
      else bracket_capture cs)"

definition log_category :: "msg \<Rightarrow> string" where
  "log_category m = (case bracket_capture m of Some c \<Rightarrow> js_lower c | None \<Rightarrow> [])"

text \<open>The regular expression's semantics: a match of \<open>\[([^\]]+)\]\<close> with capture
  \<open>c\<close> starts at the head of \<open>s\<close>.\<close>

definition bracket_at :: "string \<Rightarrow> string \<Rightarrow> bool" where
  "bracket_at s c \<longleftrightarrow>
     c \<noteq> [] \<and> CHR '']'' \<notin> set c \<and> prefix (CHR ''['' # c @ [CHR '']'']) s"

text \<open>Whether the wrapper forwards the call to the original \<^verbatim>\<open>console.log\<close>: each early
  \<^verbatim>\<open>return\<close> of lines 75--78 is one conjunct that must fail.\<close>

definition log_passes :: "console_manager \<Rightarrow> msg \<Rightarrow> bool" where
  "log_passes M m =
     (if important_log m then True
      else if productionMode M \<and> \<not> dc_all (debugCategories M)
              \<and> starts_with m ''['' \<and> js_includes m '']'' then
        (let cat = log_category m; D = debugCategories M in
           \<not> (js_includes cat ''booking'' \<and> \<not> dc_booking D) \<and>
           \<not> (js_includes cat ''auth'' \<and> \<not> dc_auth D) \<and>
           \<not> (js_includes cat ''firebase'' \<and> \<not> dc_firebase D) \<and>
           \<not> (js_includes cat ''ui'' \<and> \<not> dc_ui D))
      else True)"

subsection \<open>The console.error and console.warn wrappers (setupErrorSuppression)\<close>

definition error_key :: "string \<Rightarrow> string" where
  "error_key p = take 20 p"

definition warn_key :: "string \<Rightarrow> string" where
  "warn_key p = ''w-'' @ take 20 p"

text \<open>The \<^verbatim>\<open>for (const pattern of self.suppressPatterns)\<close> loop: the first component
  says whether the loop ran to its end (the call is forwarded), the second is the set after
  the loop; keys added before an early \<^verbatim>\<open>return\<close> stay added.\<close>

fun suppress_scan ::
  "(string \<Rightarrow> string) \<Rightarrow> msg \<Rightarrow> string list \<Rightarrow> string list \<Rightarrow> bool \<times> string list" where
  "suppress_scan key m [] S = (True, S)"
| "suppress_scan key m (p # ps) S =
     (if js_includes m p then
        (if key p \<in> set S then (False, S) else suppress_scan key m ps (set_add S (key p)))
      else suppress_scan key m ps S)"

definition emit :: "channel \<Rightarrow> msg \<Rightarrow> page_console \<Rightarrow> page_console" where
  "emit ch m P = P\<lparr>printed := printed P @ [(ch, m)]\<rparr>"

definition filtered_call ::
  "(string \<Rightarrow> string) \<Rightarrow> channel \<Rightarrow> page_console \<Rightarrow> msg \<Rightarrow> page_console" where
  "filtered_call key ch P m =
     (let M = manager P;
          (pass, S) = suppress_scan key m (suppressPatterns M) (suppressedErrors M);
          P' = P\<lparr>manager := M\<lparr>suppressedErrors := S\<rparr>\<rparr>
      in if pass then emit ch m P' else P')"

definition console_error :: "page_console \<Rightarrow> msg \<Rightarrow> page_console" where
  "console_error P m = (if overridden P then filtered_call error_key CError P m else emit CError m P)"

definition console_warn :: "page_console \<Rightarrow> msg \<Rightarrow> page_console" where
  "console_warn P m = (if overridden P then filtered_call warn_key CWarn P m else emit CWarn m P)"

definition console_log :: "page_console \<Rightarrow> msg \<Rightarrow> page_console" where
  "console_log P m =
     (if overridden P \<and> \<not> log_passes (manager P) m then P else emit CLog m P)"

definition console_info :: "page_console \<Rightarrow> msg \<Rightarrow> page_console" where
  "console_info P m = emit CInfo m P"

subsection \<open>Methods of ConsoleManager\<close>

text \<open>\<^verbatim>\<open>setupPermissionErrorHandling\<close>: the \<^verbatim>\<open>unhandledrejection\<close> listener calls
  \<^verbatim>\<open>preventDefault()\<close> exactly when the reason's message (\<^verbatim>\<open>''\<close> when absent)
  contains \<^verbatim>\<open>Permission denied\<close>.\<close>

definition rejection_prevented :: "string option \<Rightarrow> bool" where
  "rejection_prevented reason =
     js_includes (case reason of Some s \<Rightarrow> s | None \<Rightarrow> []) ''Permission denied''"

text \<open>\<^verbatim>\<open>createCleanLogger\<close>: the four functions call the saved original console.\<close>

definition logger_info :: "page_console \<Rightarrow> msg \<Rightarrow> page_console" where
  "logger_info P m = emit CInfo (''[App] '' @ m) P"

definition logger_success :: "page_console \<Rightarrow> msg \<Rightarrow> page_console" where
  "logger_success P m = emit CLog (check_mark @ '' '' @ m) P"

definition logger_warning :: "page_console \<Rightarrow> msg \<Rightarrow> page_console" where
  "logger_warning P m = emit CWarn (warning_sign @ '' '' @ m) P"

definition logger_error :: "page_console \<Rightarrow> msg \<Rightarrow> page_console" where
  "logger_error P m = emit CError (cross_mark @ '' '' @ m) P"

definition getErrorStats :: "page_console \<Rightarrow> nat" where
  "getErrorStats P = length (suppressedErrors (manager P))"

definition cm_reset :: "page_console \<Rightarrow> page_console" where
  "cm_reset P = P\<lparr>manager := (manager P)\<lparr>suppressedErrors := []\<rparr>\<rparr>"

definition cm_restore :: "page_console \<Rightarrow> page_console" where
  "cm_restore P = P\<lparr>overridden := False\<rparr>"

text \<open>The two mode switches log their confirmation through \<^verbatim>\<open>console.log\<close>, that is,
  through the wrapper when it is still installed.\<close>

definition enableVerboseMode :: "page_console \<Rightarrow> page_console" where
  "enableVerboseMode P =
     (let M = manager P;
          M' = M\<lparr>productionMode := False,
                 debugCategories := (debugCategories M)\<lparr>dc_all := True\<rparr>,
                 suppressedErrors := [], suppressPatterns := []\<rparr>
      in console_log (P\<lparr>manager := M'\<rparr>) (wrench @ '' Verbose logging enabled''))"

definition enableProductionMode :: "page_console \<Rightarrow> page_console" where
  "enableProductionMode P =
     (let M = manager P;
          M' = M\<lparr>productionMode := True, debugCategories := (debugCategories M)\<lparr>dc_all := False\<rparr>\<rparr>
      in console_log (P\<lparr>manager := M'\<rparr>) (wrench @ '' Production logging enabled (minimal logs)''))"

text \<open>\<^verbatim>\<open>this.debugCategories.hasOwnProperty(category)\<close> holds for the five own keys
  only; any other name (also an inherited one such as \<^verbatim>\<open>toString\<close>) is ignored.\<close>

definition enable_cat :: "string \<Rightarrow> debug_cats \<Rightarrow> debug_cats option" where
  "enable_cat c D =
     (if c = ''booking'' then Some (D\<lparr>dc_booking := True\<rparr>)
      else if c = ''auth'' then Some (D\<lparr>dc_auth := True\<rparr>)
      else if c = ''firebase'' then Some (D\<lparr>dc_firebase := True\<rparr>)
      else if c = ''ui'' then Some (D\<lparr>dc_ui := True\<rparr>)
      else if c = ''all'' then Some (D\<lparr>dc_all := True\<rparr>)
      else None)"

definition enableDebugCategory :: "page_console \<Rightarrow> string \<Rightarrow> page_console" where
  "enableDebugCategory P c =
     (case enable_cat c (debugCategories (manager P)) of
        None \<Rightarrow> P
      | Some D \<Rightarrow> console_log (P\<lparr>manager := (manager P)\<lparr>debugCategories := D\<rparr>\<rparr>)
                    (wrench @ '' Debug enabled for: '' @ c))"

subsection \<open>The page's calls\<close>

text \<open>Calls other page scripts make: the console functions, the \<^verbatim>\<open>window\<close> toggles of
  lines 185--191 and the methods of \<^verbatim>\<open>window.consoleManager\<close> and \<^verbatim>\<open>window.logger\<close>.\<close>

datatype console_event =
    Log msg | Warn msg | Error msg | Info msg
  | ResetTracking | Restore | VerboseOn | ProductionOn | DebugCategory string
  | LoggerInfo msg | LoggerSuccess msg | LoggerWarning msg | LoggerError msg

fun console_step :: "page_console \<Rightarrow> console_event \<Rightarrow> page_console" where
  "console_step P (Log m) = console_log P m"
| "console_step P (Warn m) = console_warn P m"
| "console_step P (Error m) = console_error P m"
| "console_step P (Info m) = console_info P m"
| "console_step P ResetTracking = cm_reset P"
| "console_step P Restore = cm_restore P"
| "console_step P VerboseOn = enableVerboseMode P"
| "console_step P ProductionOn = enableProductionMode P"
| "console_step P (DebugCategory c) = enableDebugCategory P c"
| "console_step P (LoggerInfo m) = logger_info P m"
| "console_step P (LoggerSuccess m) = logger_success P m"
| "console_step P (LoggerWarning m) = logger_warning P m"
| "console_step P (LoggerError m) = logger_error P m"

fun console_run :: "page_console \<Rightarrow> console_event list \<Rightarrow> page_console" where
  "console_run P [] = P"
| "console_run P (e # es) = console_run (console_step P e) es"

text \<open>The calls after which the suppression state still filters errors: all but
  \<^verbatim>\<open>resetConsoleTracking()\<close>, \<^verbatim>\<open>enableVerboseLogging()\<close> and \<^verbatim>\<open>restore()\<close>.\<close>

fun keeps_tracking :: "console_event \<Rightarrow> bool" where
  "keeps_tracking ResetTracking = False"
| "keeps_tracking VerboseOn = False"
| "keeps_tracking Restore = False"
| "keeps_tracking e = True"

subsection \<open>Invariant\<close>

text \<open>What every reachable manager keeps: the suppression set has no duplicates, the patterns
  are a subset of the twelve the constructor installs (\<^verbatim>\<open>enableVerboseMode\<close> empties
  them, nothing adds any), and every key is the 20-character prefix of a pattern, with or
  without the \<^verbatim>\<open>w-\<close> of the warning wrapper.\<close>

definition known_keys :: "string set" where
  "known_keys = error_key ` set default_patterns \<union> warn_key ` set default_patterns"

definition cm_inv :: "console_manager \<Rightarrow> bool" where
  "cm_inv M \<longleftrightarrow>
     distinct (suppressedErrors M) \<and> set (suppressPatterns M) \<subseteq> set default_patterns \<and>
     set (suppressedErrors M) \<subseteq> known_keys"

subsection \<open>Facts about the wrappers and methods\<close>

lemma suppress_scan_mono: "set S \<subseteq> set (snd (suppress_scan key m ps S))"
  by (induction key m ps S rule: suppress_scan.induct) auto

lemma suppress_scan_keys: "set (snd (suppress_scan key m ps S)) \<subseteq> set S \<union> key ` set ps"
  by (induction key m ps S rule: suppress_scan.induct) auto

lemma suppress_scan_distinct: "distinct S \<Longrightarrow> distinct (snd (suppress_scan key m ps S))"
  by (induction key m ps S rule: suppress_scan.induct) auto

lemma suppress_scan_again:
  assumes "\<exists>p\<in>set ps. js_includes m p"
  shows "\<not> fst (suppress_scan key m ps (snd (suppress_scan key m ps S)))"
  using assms
proof (induction ps arbitrary: S)
  case Nil
  then show ?case by simp
next
  case (Cons p ps)
  show ?case
  proof (cases "js_includes m p")
    case True
    have "key p \<in> set (snd (suppress_scan key m (p # ps) S))"
      using True suppress_scan_mono [of "set_add S (key p)" key m ps] by auto
    with True show ?thesis by simp
  next
    case False
    with Cons show ?thesis by simp
  qed
qed

lemma suppress_scan_fresh:
  assumes "distinct (map key (filter (\<lambda>p. js_includes m p) ps))"
    and "\<forall>p\<in>set ps. js_includes m p \<longrightarrow> key p \<notin> set S"
  shows "suppress_scan key m ps S = (True, S @ map key (filter (\<lambda>p. js_includes m p) ps))"
  using assms
proof (induction ps arbitrary: S)
  case Nil
  then show ?case by simp
next
  case (Cons p ps)
  show ?case
  proof (cases "js_includes m p")
    case True
    have fresh: "key p \<notin> set S" using Cons.prems(2) True by simp
    have "\<forall>q\<in>set ps. js_includes m q \<longrightarrow> key q \<notin> set (S @ [key p])"
      using Cons.prems True by (force simp: image_iff)
    then have "suppress_scan key m ps (S @ [key p]) =
        (True, (S @ [key p]) @ map key (filter (\<lambda>p. js_includes m p) ps))"
      using Cons.IH Cons.prems(1) True by simp
    with True fresh show ?thesis by simp
  next
    case False
    with Cons show ?thesis by simp
  qed
qed

lemma emit_frame [simp]:
  "manager (emit ch m P) = manager P" "overridden (emit ch m P) = overridden P"
  "printed (emit ch m P) = printed P @ [(ch, m)]"
  by (simp_all add: emit_def)

lemma console_log_frame [simp]:
  "manager (console_log P m) = manager P" "overridden (console_log P m) = overridden P"
  by (simp_all add: console_log_def)

lemma filtered_call_frame [simp]:
  "manager (filtered_call key ch P m) =
     (manager P)\<lparr>suppressedErrors :=
        snd (suppress_scan key m (suppressPatterns (manager P)) (suppressedErrors (manager P)))\<rparr>"
  "overridden (filtered_call key ch P m) = overridden P"
  by (simp_all add: filtered_call_def Let_def split: prod.split)

lemma filtered_call_printed:
  "printed (filtered_call key ch P m) =
     (if fst (suppress_scan key m (suppressPatterns (manager P)) (suppressedErrors (manager P)))
      then printed P @ [(ch, m)] else printed P)"
  by (simp add: filtered_call_def Let_def split: prod.split)

lemma method_frames [simp]:
  "manager (console_info P m) = manager P" "overridden (console_info P m) = overridden P"
  "printed (console_info P m) = printed P @ [(CInfo, m)]"
  "manager (logger_info P m) = manager P" "overridden (logger_info P m) = overridden P"
  "manager (logger_success P m) = manager P" "overridden (logger_success P m) = overridden P"
  "manager (logger_warning P m) = manager P" "overridden (logger_warning P m) = overridden P"
  "manager (logger_error P m) = manager P" "overridden (logger_error P m) = overridden P"
  "manager (cm_reset P) = (manager P)\<lparr>suppressedErrors := []\<rparr>"
  "overridden (cm_reset P) = overridden P" "printed (cm_reset P) = printed P"
  "manager (cm_restore P) = manager P" "overridden (cm_restore P) = False"
  "printed (cm_restore P) = printed P"
  by (simp_all add: console_info_def logger_info_def logger_success_def logger_warning_def
      logger_error_def cm_reset_def cm_restore_def)

lemma enableVerboseMode_frame [simp]:
  "manager (enableVerboseMode P) =
     (manager P)\<lparr>productionMode := False,
        debugCategories := (debugCategories (manager P))\<lparr>dc_all := True\<rparr>,
        suppressedErrors := [], suppressPatterns := []\<rparr>"
  "overridden (enableVerboseMode P) = overridden P"
  by (simp_all add: enableVerboseMode_def Let_def)

lemma enableProductionMode_frame [simp]:
  "manager (enableProductionMode P) =
     (manager P)\<lparr>productionMode := True,
        debugCategories := (debugCategories (manager P))\<lparr>dc_all := False\<rparr>\<rparr>"
  "overridden (enableProductionMode P) = overridden P"
  by (simp_all add: enableProductionMode_def Let_def)

lemma enableDebugCategory_overridden [simp]:
  "overridden (enableDebugCategory P c) = overridden P"
  by (simp add: enableDebugCategory_def split: option.split)

lemma enableDebugCategory_manager:
  "manager (enableDebugCategory P c) =
     (case enable_cat c (debugCategories (manager P)) of
        None \<Rightarrow> manager P | Some D \<Rightarrow> (manager P)\<lparr>debugCategories := D\<rparr>)"
  by (simp add: enableDebugCategory_def split: option.split)

lemma console_error_cases:
  "console_error P m = (if overridden P then filtered_call error_key CError P m else emit CError m P)"
  "console_warn P m = (if overridden P then filtered_call warn_key CWarn P m else emit CWarn m P)"
  by (simp_all add: console_error_def console_warn_def)

lemma console_error_frame [simp]:
  "overridden (console_error P m) = overridden P" "overridden (console_warn P m) = overridden P"
  by (simp_all add: console_error_cases)

lemma suppress_scan_no_patterns [simp]: "suppress_scan key m [] S = (True, S)"
  by simp

lemma filtered_call_inv:
  assumes "cm_inv (manager P)" and "key = error_key \<or> key = warn_key"
  shows "cm_inv (manager (filtered_call key ch P m))"
proof -
  let ?M = "manager P"
  have "set (snd (suppress_scan key m (suppressPatterns ?M) (suppressedErrors ?M)))
        \<subseteq> set (suppressedErrors ?M) \<union> key ` set (suppressPatterns ?M)"
    by (rule suppress_scan_keys)
  moreover have "key ` set (suppressPatterns ?M) \<subseteq> known_keys"
    using assms by (auto simp: cm_inv_def known_keys_def)
  ultimately have "set (snd (suppress_scan key m (suppressPatterns ?M) (suppressedErrors ?M)))
      \<subseteq> known_keys"
    using assms(1) unfolding cm_inv_def by blast
  then show ?thesis
    using assms(1) by (simp add: cm_inv_def suppress_scan_distinct)
qed

lemma console_step_inv: "cm_inv (manager P) \<Longrightarrow> cm_inv (manager (console_step P e))"
proof (cases e)
  case (Error m)
  then show ?thesis if "cm_inv (manager P)"
    using that filtered_call_inv [of P error_key CError m] by (simp add: console_error_cases)
next
  case (Warn m)
  then show ?thesis if "cm_inv (manager P)"
    using that filtered_call_inv [of P warn_key CWarn m] by (simp add: console_error_cases)
next
  case (DebugCategory c)
  then show ?thesis if "cm_inv (manager P)"
    using that by (auto simp: enableDebugCategory_manager cm_inv_def split: option.split)
qed (auto simp: cm_inv_def)

lemma console_run_inv: "cm_inv (manager P) \<Longrightarrow> cm_inv (manager (console_run P es))"
  by (induction es arbitrary: P) (simp_all add: console_step_inv)

lemma console_boot_inv: "cm_inv (manager console_boot)"
  by (simp add: cm_inv_def console_boot_def new_ConsoleManager_def)

lemma known_keys_card: "card known_keys \<le> 24"
proof -
  have "card known_keys \<le> card (error_key ` set default_patterns) + card (warn_key ` set default_patterns)"
    unfolding known_keys_def by (rule card_Un_le)
  also have "\<dots> \<le> card (set default_patterns) + card (set default_patterns)"
    by (intro add_mono card_image_le) simp_all
  also have "\<dots> \<le> length default_patterns + length default_patterns"
    by (intro add_mono card_length)
  also have "\<dots> = 24" by (simp add: default_patterns_def)
  finally show ?thesis .
qed

lemma cm_inv_stats_bounded: "cm_inv (manager P) \<Longrightarrow> getErrorStats P \<le> 24"
proof -
  assume inv: "cm_inv (manager P)"
  then have "getErrorStats P \<le> card known_keys"
    unfolding getErrorStats_def cm_inv_def
    by (intro distinct_length_le_card) (auto simp: known_keys_def)
  with known_keys_card show ?thesis by simp
qed

lemma suppress_scan_blocked:
  "p \<in> set ps \<Longrightarrow> js_includes m p \<Longrightarrow> key p \<in> set S \<Longrightarrow> \<not> fst (suppress_scan key m ps S)"
proof (induction ps arbitrary: S)
  case (Cons q ps)
  show ?case
  proof (cases "q = p")
    case True
    with Cons.prems show ?thesis by simp
  next
    case False
    then have "p \<in> set ps" using Cons.prems(1) by simp
    have "key p \<in> set (set_add S (key q))" using Cons.prems(3) by simp
    then show ?thesis
      using Cons.IH [OF \<open>p \<in> set ps\<close> Cons.prems(2)] Cons.IH [OF \<open>p \<in> set ps\<close> Cons.prems(2,3)]
      by simp
  qed
qed simp

lemma console_step_tracking:
  assumes "keeps_tracking e"
  shows "overridden (console_step P e) = overridden P"
    and "suppressPatterns (manager (console_step P e)) = suppressPatterns (manager P)"
    and "set (suppressedErrors (manager P)) \<subseteq> set (suppressedErrors (manager (console_step P e)))"
  using assms suppress_scan_mono
  by (cases e; simp add: console_error_cases enableDebugCategory_manager split: option.split)+

lemma console_run_tracking:
  assumes "list_all keeps_tracking es"
  shows "overridden (console_run P es) = overridden P"
    and "suppressPatterns (manager (console_run P es)) = suppressPatterns (manager P)"
    and "set (suppressedErrors (manager P)) \<subseteq> set (suppressedErrors (manager (console_run P es)))"
  using assms
proof (induction es arbitrary: P)
  case (Cons e es)
  case 1 then show ?case using Cons.IH(1) console_step_tracking(1) by simp
next
  case (Cons e es)
  case 2 then show ?case using Cons.IH(2) console_step_tracking(2) by simp
next
  case (Cons e es)
  case 3 then show ?case using Cons.IH(3) console_step_tracking(3) by (simp, blast)
qed simp_all

text \<open>With only \<^verbatim>\<open>Permission denied\<close> and \<^verbatim>\<open>firebase-db.js\<close> among the patterns
  in a message, the scan of the default patterns records the first one's key before it meets
  the second.\<close>

lemma scan_permission_firebase:
  assumes "\<forall>p\<in>set default_patterns. js_includes m p \<longrightarrow>
             p = ''Permission denied'' \<or> p = ''firebase-db.js''"
    and "js_includes m ''Permission denied''"
  shows "error_key ''Permission denied'' \<in> set (snd (suppress_scan error_key m default_patterns S))"
  using assms suppress_scan_mono [of _ error_key m]
  by (simp add: default_patterns_def)

lemma bracket_at_Cons:
  "bracket_at (x # cs) c \<longleftrightarrow>
     x = CHR ''['' \<and> c = takeWhile (\<lambda>y. y \<noteq> CHR '']'') cs \<and> c \<noteq> [] \<and> length c < length cs"
proof
  assume "bracket_at (x # cs) c"
  then obtain r where x: "x = CHR ''[''" and cs: "cs = c @ CHR '']'' # r"
    and c: "c \<noteq> []" "CHR '']'' \<notin> set c"
    by (auto simp: bracket_at_def prefix_def)
  from c(2) have "takeWhile (\<lambda>y. y \<noteq> CHR '']'') (c @ CHR '']'' # r) = c"
    by (induction c) auto
  then have "takeWhile (\<lambda>y. y \<noteq> CHR '']'') cs = c" by (simp add: cs)
  with x cs c(1) show "x = CHR ''['' \<and> c = takeWhile (\<lambda>y. y \<noteq> CHR '']'') cs \<and> c \<noteq> [] \<and>
      length c < length cs" by simp
next
  assume a: "x = CHR ''['' \<and> c = takeWhile (\<lambda>y. y \<noteq> CHR '']'') cs \<and> c \<noteq> [] \<and>
      length c < length cs"
  let ?d = "dropWhile (\<lambda>y. y \<noteq> CHR '']'') cs"
  have split: "c @ ?d = cs" using a by simp
  have "length c + length ?d = length cs" using arg_cong [OF split, of length] by simp
  moreover have "length c < length cs" using a by blast
  ultimately have "length ?d \<noteq> 0" by linarith
  then have "?d \<noteq> []" by (metis list.size(3))
  moreover have "?d \<noteq> [] \<Longrightarrow> hd ?d = CHR '']''"
    using hd_dropWhile [of "\<lambda>y. y \<noteq> CHR '']''" cs] by blast
  ultimately obtain r where d: "?d = CHR '']'' # r" by (metis list.collapse)
  with split have "cs = c @ CHR '']'' # r" by simp
  moreover have "CHR '']'' \<notin> set c" using a by (auto dest: set_takeWhileD)
  ultimately show "bracket_at (x # cs) c" using a by (auto simp: bracket_at_def prefix_def)
qed

lemma bracket_capture_Cons_at:
  "bracket_capture (x # cs) =
     (if \<exists>c. bracket_at (x # cs) c then Some (takeWhile (\<lambda>y. y \<noteq> CHR '']'') cs)
      else bracket_capture cs)"
  by (auto simp: bracket_at_Cons Let_def)

lemma bracket_at_unique: "bracket_at s c \<Longrightarrow> bracket_at s c' \<Longrightarrow> c = c'"
  by (cases s) (auto simp: bracket_at_Cons bracket_at_def [of "[]"])

lemma bracket_capture_Some_split:
  "bracket_capture s = Some c \<Longrightarrow> \<exists>a b. s = a @ CHR ''['' # c @ CHR '']'' # b"
proof (induction s)
  case Nil
  then show ?case by simp
next
  case (Cons x cs)
  show ?case
  proof (cases "\<exists>c'. bracket_at (x # cs) c'")
    case True
    with Cons.prems have "bracket_at (x # cs) c"
      by (auto simp: bracket_capture_Cons_at bracket_at_Cons simp del: bracket_capture.simps)
    then have "\<exists>b. x # cs = [] @ CHR ''['' # c @ CHR '']'' # b"
      by (auto simp: bracket_at_def prefix_def)
    then show ?thesis by blast
  next
    case False
    with Cons.prems have "bracket_capture cs = Some c"
      by (simp add: bracket_capture_Cons_at del: bracket_capture.simps)
    then obtain a b where "cs = a @ CHR ''['' # c @ CHR '']'' # b"
      using Cons.IH by blast
    then have "x # cs = (x # a) @ CHR ''['' # c @ CHR '']'' # b" by simp
    then show ?thesis by blast
  qed
qed

lemma log_category_bracket:
  assumes "w \<noteq> []" and "js_includes (log_category m) w"
  shows "js_includes m '']''"
proof (cases "bracket_capture m")
  case None
  with assms show ?thesis by (simp add: log_category_def)
next
  case (Some c)
  then obtain a b where "m = a @ CHR ''['' # c @ CHR '']'' # b"
    using bracket_capture_Some_split by blast
  then have "m = (a @ CHR ''['' # c) @ '']'' @ b" by simp
  then show ?thesis using includes_appendI by metis
qed

lemma console_step_patterns_Nil:
  "suppressPatterns (manager P) = [] \<Longrightarrow> suppressPatterns (manager (console_step P e)) = []"
  by (cases e) (simp_all add: console_error_cases enableDebugCategory_manager split: option.split)

lemma console_run_patterns_Nil:
  "suppressPatterns (manager P) = [] \<Longrightarrow> suppressPatterns (manager (console_run P es)) = []"
  by (induction es arbitrary: P) (simp_all add: console_step_patterns_Nil)

lemma console_step_not_overridden:
  "\<not> overridden P \<Longrightarrow> \<not> overridden (console_step P e)"
  by (cases e) simp_all

lemma console_run_not_overridden:
  "\<not> overridden P \<Longrightarrow> \<not> overridden (console_run P es)"
  by (induction es arbitrary: P) (simp_all add: console_step_not_overridden)

lemma unfiltered_calls:
  assumes "\<not> overridden P \<or> suppressPatterns (manager P) = []"
  shows "printed (console_error P m) = printed P @ [(CError, m)]"
    and "printed (console_warn P m) = printed P @ [(CWarn, m)]"
  using assms by (auto simp: console_error_cases filtered_call_printed)

subsection \<open>Properties of the console manager\<close>

text \<open>Claim C1. While the wrappers are installed, a \<^verbatim>\<open>console.error\<close> message that
  contains one of the suppression patterns is printed at most once: the same message again
  leaves the console's output unchanged.\<close>

theorem second_error_suppressed:
  assumes "overridden P" and "p \<in> set (suppressPatterns (manager P))" and "js_includes m p"
  shows "printed (console_error (console_error P m) m) = printed (console_error P m)"
proof -
  let ?M = "manager P"
  have Q: "console_error P m = filtered_call error_key CError P m"
    using assms(1) by (simp add: console_error_cases)
  have "\<not> fst (suppress_scan error_key m (suppressPatterns ?M)
            (snd (suppress_scan error_key m (suppressPatterns ?M) (suppressedErrors ?M))))"
    using assms(2,3) by (intro suppress_scan_again) blast
  then show ?thesis
    using assms(1) by (simp add: Q console_error_cases filtered_call_printed)
qed

theorem second_error_suppressed_witness:
  "overridden console_boot \<and>
   ''Permission denied'' \<in> set (suppressPatterns (manager console_boot)) \<and>
   js_includes ''Permission denied: /bookings'' ''Permission denied'' \<and>
   printed (console_error (console_error console_boot ''Permission denied: /bookings'')
              ''Permission denied: /bookings'') =
   printed (console_error console_boot ''Permission denied: /bookings'')"
proof -
  have h1: "overridden console_boot" by (simp add: console_boot_def)
  have h2: "''Permission denied'' \<in> set (suppressPatterns (manager console_boot))"
    by (simp add: console_boot_def new_ConsoleManager_def default_patterns_def)
  have h3: "js_includes ''Permission denied: /bookings'' ''Permission denied''"
    by (simp add: js_simps)
  show ?thesis using second_error_suppressed [OF h1 h2 h3] h1 h2 h3 by blast
qed

text \<open>Claim C2. With the constructor's patterns, a \<^verbatim>\<open>console.error\<close> message none of
  whose matching patterns' keys has been recorded yet (in particular any first message after
  page load or \<^verbatim>\<open>resetConsoleTracking()\<close>) is printed unchanged: the twelve keys are
  pairwise distinct, so the scan never stops early on a fresh key.\<close>

theorem first_error_printed:
  assumes "overridden P" and "suppressPatterns (manager P) = default_patterns"
    and "error_key ` {p \<in> set default_patterns. js_includes m p}
           \<inter> set (suppressedErrors (manager P)) = {}"
  shows "printed (console_error P m) = printed P @ [(CError, m)]"
proof -
  have "distinct (map error_key default_patterns)"
    by (simp add: default_patterns_def error_key_def)
  then have "distinct (map error_key (filter (\<lambda>p. js_includes m p) default_patterns))"
    by (rule distinct_map_filter)
  then have "fst (suppress_scan error_key m default_patterns (suppressedErrors (manager P)))"
    using assms(3) by (subst suppress_scan_fresh) auto
  then show ?thesis
    using assms(1,2) by (simp add: console_error_cases filtered_call_printed)
qed

theorem first_error_printed_witness:
  "overridden console_boot \<and> suppressPatterns (manager console_boot) = default_patterns \<and>
   error_key ` {p \<in> set default_patterns. js_includes ''Error getting bookings: timeout'' p}
     \<inter> set (suppressedErrors (manager console_boot)) = {} \<and>
   printed (console_error console_boot ''Error getting bookings: timeout'') =
   [(CError, ''Error getting bookings: timeout'')]"
proof -
  have h1: "overridden console_boot" by (simp add: console_boot_def)
  have h2: "suppressPatterns (manager console_boot) = default_patterns"
    by (simp add: console_boot_def new_ConsoleManager_def)
  have h3: "error_key ` {p \<in> set default_patterns. js_includes ''Error getting bookings: timeout'' p}
     \<inter> set (suppressedErrors (manager console_boot)) = {}"
    by (simp add: console_boot_def new_ConsoleManager_def)
  have "printed console_boot = []" by (simp add: console_boot_def)
  then show ?thesis using first_error_printed [OF h1 h2 h3] h1 h2 h3 by simp
qed

text \<open>Claim C3. \<^verbatim>\<open>enableVerboseLogging()\<close> empties the suppression set, and after it,
  whatever the page calls next, every \<^verbatim>\<open>console.error\<close> and \<^verbatim>\<open>console.warn\<close> message is
  printed: the pattern list stays empty for the rest of the page's life.\<close>

theorem verbose_mode_disables_suppression:
  "getErrorStats (enableVerboseMode P) = 0 \<and>
   printed (console_error (console_run (enableVerboseMode P) es) m) =
     printed (console_run (enableVerboseMode P) es) @ [(CError, m)] \<and>
   printed (console_warn (console_run (enableVerboseMode P) es) m) =
     printed (console_run (enableVerboseMode P) es) @ [(CWarn, m)]"
proof -
  have "suppressPatterns (manager (console_run (enableVerboseMode P) es)) = []"
    by (rule console_run_patterns_Nil) simp
  then show ?thesis by (simp add: unfiltered_calls getErrorStats_def)
qed

text \<open>Claim C4. A \<^verbatim>\<open>console.log\<close> call is dropped exactly when the wrapper is installed,
  production mode is on and the \<^verbatim>\<open>all\<close> category is off, the message carries none of
  the markers (check mark, siren, cross, Error, error, Success, success), starts with a
  bracket, and its bracketed category names a category that is switched off.\<close>

theorem console_log_dropped_iff:
  "printed (console_log P m) = printed P \<longleftrightarrow>
     overridden P \<and> productionMode (manager P) \<and> \<not> dc_all (debugCategories (manager P)) \<and>
     \<not> important_log m \<and> starts_with m ''['' \<and>
     ((js_includes (log_category m) ''booking'' \<and> \<not> dc_booking (debugCategories (manager P))) \<or>
      (js_includes (log_category m) ''auth'' \<and> \<not> dc_auth (debugCategories (manager P))) \<or>
      (js_includes (log_category m) ''firebase'' \<and> \<not> dc_firebase (debugCategories (manager P))) \<or>
      (js_includes (log_category m) ''ui'' \<and> \<not> dc_ui (debugCategories (manager P))))"
  using log_category_bracket [of "''booking''" m] log_category_bracket [of "''auth''" m]
    log_category_bracket [of "''firebase''" m] log_category_bracket [of "''ui''" m]
  by (auto simp: console_log_def log_passes_def Let_def)

theorem console_log_dropped_iff_witness:
  "printed (console_log console_boot ''[Booking] 3 slots loaded'') = printed console_boot \<and>
   js_includes (log_category ''[Booking] 3 slots loaded'') ''booking'' \<and>
   \<not> important_log ''[Booking] 3 slots loaded''"
  using console_log_dropped_iff [of console_boot "''[Booking] 3 slots loaded''"]
  by (simp add: console_boot_def new_ConsoleManager_def important_log_def log_category_def
      check_mark_def siren_def cross_mark_def js_simps)

text \<open>Claim C5. In every state the page can reach from the constructor, the suppression set
  has no duplicates and \<^verbatim>\<open>getConsoleStats().suppressedCount\<close> is at most 24 (one key per
  pattern for errors and one for warnings).\<close>

theorem error_stats_bounded:
  "distinct (suppressedErrors (manager (console_run console_boot es))) \<and>
   getErrorStats (console_run console_boot es) \<le> 24"
proof -
  have inv: "cm_inv (manager (console_run console_boot es))"
    by (rule console_run_inv [OF console_boot_inv])
  then show ?thesis by (simp add: cm_inv_stats_bounded cm_inv_def)
qed

text \<open>Claim C6. An early \<^verbatim>\<open>return\<close> in the scan keeps the keys it has already added.
  Once a \<^verbatim>\<open>firebase-db.js\<close> error has been printed, an error that mentions
  \<^verbatim>\<open>Permission denied\<close> and \<^verbatim>\<open>firebase-db.js\<close> (and no other pattern) is dropped
  and records the \<^verbatim>\<open>Permission denied\<close> key; from then on, whatever the page calls
  (short of resetting the tracking, verbose mode or \<^verbatim>\<open>restore()\<close>), every later error
  that contains \<^verbatim>\<open>Permission denied\<close> is dropped as well, so that no such error is ever
  printed.\<close>

theorem permission_denied_swallowed_for_good:
  assumes "overridden P" and "suppressPatterns (manager P) = default_patterns"
    and "error_key ''firebase-db.js'' \<in> set (suppressedErrors (manager P))"
    and "js_includes m ''Permission denied''" and "js_includes m ''firebase-db.js''"
    and "\<forall>p\<in>set default_patterns. js_includes m p \<longrightarrow>
           p = ''Permission denied'' \<or> p = ''firebase-db.js''"
    and "list_all keeps_tracking es" and "js_includes m' ''Permission denied''"
  shows "printed (console_error P m) = printed P \<and>
         printed (console_error (console_run (console_error P m) es) m') =
           printed (console_run (console_error P m) es)"
proof -
  let ?S = "suppressedErrors (manager P)"
  have fdb: "''firebase-db.js'' \<in> set default_patterns" and pd: "''Permission denied'' \<in> set default_patterns"
    by (simp_all add: default_patterns_def)
  have blocked: "\<not> fst (suppress_scan error_key m default_patterns ?S)"
    using suppress_scan_blocked [where key = error_key, OF fdb assms(5) assms(3)] .
  have first: "printed (console_error P m) = printed P"
    using assms(1,2) blocked by (simp add: console_error_cases filtered_call_printed)
  let ?Q = "console_run (console_error P m) es"
  have "overridden (console_error P m)" using assms(1) by simp
  then have ov: "overridden ?Q" using console_run_tracking(1) [OF assms(7)] by simp
  have "suppressPatterns (manager (console_error P m)) = default_patterns"
    using assms(1,2) by (simp add: console_error_cases)
  then have pat: "suppressPatterns (manager ?Q) = default_patterns"
    using console_run_tracking(2) [OF assms(7)] by simp
  have "error_key ''Permission denied'' \<in> set (suppressedErrors (manager (console_error P m)))"
    using assms(1,2) scan_permission_firebase [OF assms(6,4)] by (simp add: console_error_cases)
  then have key: "error_key ''Permission denied'' \<in> set (suppressedErrors (manager ?Q))"
    using console_run_tracking(3) [OF assms(7)] by blast
  have "\<not> fst (suppress_scan error_key m' default_patterns (suppressedErrors (manager ?Q)))"
    using suppress_scan_blocked [where key = error_key, OF pd assms(8) key] .
  then show ?thesis
    using first ov pat by (simp add: console_error_cases filtered_call_printed)
qed

theorem permission_denied_swallowed_for_good_witness:
  "overridden (console_error console_boot ''db: firebase-db.js failed'') \<and>
   suppressPatterns (manager (console_error console_boot ''db: firebase-db.js failed'')) = default_patterns \<and>
   error_key ''firebase-db.js'' \<in>
     set (suppressedErrors (manager (console_error console_boot ''db: firebase-db.js failed''))) \<and>
   list_all keeps_tracking [Warn ''slow network'', DebugCategory ''booking''] \<and>
   printed (console_error (console_error console_boot ''db: firebase-db.js failed'')
       ''Permission denied at firebase-db.js:12'') =
     [(CError, ''db: firebase-db.js failed'')] \<and>
   printed (console_error (console_run (console_error (console_error console_boot ''db: firebase-db.js failed'')
       ''Permission denied at firebase-db.js:12'') [Warn ''slow network'', DebugCategory ''booking''])
       ''Permission denied: /bookings'') =
     printed (console_run (console_error (console_error console_boot ''db: firebase-db.js failed'')
       ''Permission denied at firebase-db.js:12'') [Warn ''slow network'', DebugCategory ''booking''])"
proof -
  let ?P = "console_error console_boot ''db: firebase-db.js failed''"
  have p0: "printed ?P = [(CError, ''db: firebase-db.js failed'')]"
    and h1: "overridden ?P" and h2: "suppressPatterns (manager ?P) = default_patterns"
    and h3: "error_key ''firebase-db.js'' \<in> set (suppressedErrors (manager ?P))"
    by (simp_all add: console_boot_def new_ConsoleManager_def default_patterns_def console_error_def
        filtered_call_def emit_def error_key_def js_simps)
  have h4: "js_includes ''Permission denied at firebase-db.js:12'' ''Permission denied''"
    and h5: "js_includes ''Permission denied at firebase-db.js:12'' ''firebase-db.js''"
    and h8: "js_includes ''Permission denied: /bookings'' ''Permission denied''"
    by (simp_all add: js_simps)
  have h6: "\<forall>p\<in>set default_patterns. js_includes ''Permission denied at firebase-db.js:12'' p \<longrightarrow>
      p = ''Permission denied'' \<or> p = ''firebase-db.js''"
    by (simp add: default_patterns_def js_simps)
  have h7: "list_all keeps_tracking [Warn ''slow network'', DebugCategory ''booking'']" by simp
  show ?thesis
    using permission_denied_swallowed_for_good [OF h1 h2 h3 h4 h5 h6 h7 h8] p0 h1 h2 h3 h7 by simp
qed

text \<open>Claim C7. After \<^verbatim>\<open>consoleManager.restore()\<close> the originals stay installed whatever the
  page calls next, and every log, warning and error is printed unfiltered.\<close>

theorem restore_unfiltered:
  "\<not> overridden (console_run (console_step P Restore) es) \<and>
   printed (console_log (console_run (console_step P Restore) es) m) =
     printed (console_run (console_step P Restore) es) @ [(CLog, m)] \<and>
   printed (console_error (console_run (console_step P Restore) es) m) =
     printed (console_run (console_step P Restore) es) @ [(CError, m)] \<and>
   printed (console_warn (console_run (console_step P Restore) es) m) =
     printed (console_run (console_step P Restore) es) @ [(CWarn, m)]"
proof -
  have "\<not> overridden (console_run (console_step P Restore) es)"
    by (rule console_run_not_overridden) simp
  then show ?thesis by (simp add: unfiltered_calls console_log_def)
qed

end
