(* ===== verification/Adaptive.thy ===== *)
theory Adaptive
  imports Prelude
begin

text \<open>
  The class \<^verbatim>\<open>AdaptivePerformanceSystem\<close> of
  \<^verbatim>\<open>src/website-main/htdocs/js/console-manager.js\<close> (lines 198--513), except its two
  asynchronous helpers, which \<open>Retry\<close> models. The object's fields are the record
  \<open>adaptive_state\<close>; the browser values the detectors sample are the record
  \<open>browser_env\<close>, an input of every operation that reads them. The two classifications
  are datatypes ordered from the best to the worst case (\<^theory_text>\<open>instantiation\<close> of
  \<open>linorder\<close>), so that monotonicity of \<^verbatim>\<open>getTimeout\<close> can be stated with \<open>\<le>\<close>.
  The browser's PerformanceObserver and \<^verbatim>\<open>setInterval\<close> registrations are counted
  (\<open>observers\<close>, \<open>memoryTimers\<close>): each delivery of resource entries runs one
  callback per registered observer, each memory check is one timer firing.
\<close>

subsection \<open>State and environment\<close>

datatype network_speed = Fast | Normal | Slow

datatype device_capability = High | Medium | Low

record perf_metric =
  metric_type :: string
  metric_name :: string
  metric_duration :: rat
  metric_size :: rat
  metric_timestamp :: int

record adaptive_state =
  networkSpeed :: network_speed
  deviceCapability :: device_capability
  baseTimeouts :: "(string \<times> int) list"
  retryAttempts :: int
  retryBackoffMultiplier :: rat
  performanceMetrics :: "perf_metric list"
  maxMetricsHistory :: nat
  observers :: nat
  memoryTimers :: nat

text \<open>\<^verbatim>\<open>navigator.connection || navigator.mozConnection || navigator.webkitConnection\<close>
  and \<^verbatim>\<open>window.performance.timing\<close>, when present; an absent \<^verbatim>\<open>effectiveType\<close> is
  \<open>None\<close>. The two \<open>throws\<close> flags select the \<^verbatim>\<open>catch\<close> branches of the detectors.\<close>

record connection_info =
  effectiveType :: "string option"
  downlink :: "rat option"

record nav_timing =
  navigationStart :: int
  loadEventEnd :: int

record browser_env =
  connection :: "connection_info option"
  timing :: "nav_timing option"
  hardwareConcurrency :: "nat option"
  deviceMemory :: "rat option"
  userAgent :: string
  hasPerformanceObserver :: bool
  hasMemoryAPI :: bool
  networkProbeThrows :: bool
  deviceProbeThrows :: bool

record resource_entry =
  entry_name :: string
  entry_duration :: rat
  entry_transferSize :: "rat option"

subsection \<open>The order of the classifications\<close>

fun speed_rank :: "network_speed \<Rightarrow> nat" where
  "speed_rank Fast = 0"
| "speed_rank Normal = 1"
| "speed_rank Slow = 2"

fun capability_rank :: "device_capability \<Rightarrow> nat" where
  "capability_rank High = 0"
| "capability_rank Medium = 1"
| "capability_rank Low = 2"

instantiation network_speed :: linorder
begin

definition less_eq_network_speed :: "network_speed \<Rightarrow> network_speed \<Rightarrow> bool" where
  "a \<le> b \<longleftrightarrow> speed_rank a \<le> speed_rank b"

definition less_network_speed :: "network_speed \<Rightarrow> network_speed \<Rightarrow> bool" where
  "a < b \<longleftrightarrow> speed_rank a < speed_rank b"

instance
proof
  fix a b c :: network_speed
  show "a < b \<longleftrightarrow> a \<le> b \<and> \<not> b \<le> a"
    by (auto simp: less_eq_network_speed_def less_network_speed_def)
  show "a \<le> a" by (simp add: less_eq_network_speed_def)
  show "a \<le> b \<Longrightarrow> b \<le> c \<Longrightarrow> a \<le> c" by (simp add: less_eq_network_speed_def)
  show "a \<le> b \<Longrightarrow> b \<le> a \<Longrightarrow> a = b"
    by (cases a; cases b) (simp_all add: less_eq_network_speed_def)
  show "a \<le> b \<or> b \<le> a" by (auto simp: less_eq_network_speed_def)
qed

end

instantiation device_capability :: linorder
begin

definition less_eq_device_capability :: "device_capability \<Rightarrow> device_capability \<Rightarrow> bool" where
  "a \<le> b \<longleftrightarrow> capability_rank a \<le> capability_rank b"

definition less_device_capability :: "device_capability \<Rightarrow> device_capability \<Rightarrow> bool" where
  "a < b \<longleftrightarrow> capability_rank a < capability_rank b"

instance
proof
  fix a b c :: device_capability
  show "a < b \<longleftrightarrow> a \<le> b \<and> \<not> b \<le> a"
    by (auto simp: less_eq_device_capability_def less_device_capability_def)
  show "a \<le> a" by (simp add: less_eq_device_capability_def)
  show "a \<le> b \<Longrightarrow> b \<le> c \<Longrightarrow> a \<le> c" by (simp add: less_eq_device_capability_def)
  show "a \<le> b \<Longrightarrow> b \<le> a \<Longrightarrow> a = b"
    by (cases a; cases b) (simp_all add: less_eq_device_capability_def)
  show "a \<le> b \<or> b \<le> a" by (auto simp: less_eq_device_capability_def)
qed

end

subsection \<open>Constructor\<close>

definition default_baseTimeouts :: "(string \<times> int) list" where
  "default_baseTimeouts =
     [(''loginCheck'', 8000), (''userFetch'', 8000), (''warningPanel'', 5000),
      (''autoCancel'', 5000), (''bookingsLoad'', 15000), (''notifications'', 5000),
      (''firebaseUser'', 45000), (''debounce'', 300), (''scrollDelay'', 150)]"

text \<open>The fields as the constructor sets them, before it calls \<^verbatim>\<open>init()\<close>.\<close>

definition fresh_adaptive_state :: adaptive_state where
  "fresh_adaptive_state =
     \<lparr>networkSpeed = Normal, deviceCapability = Medium, baseTimeouts = default_baseTimeouts,
      retryAttempts = 3, retryBackoffMultiplier = 3 / 2, performanceMetrics = [],
      maxMetricsHistory = 100, observers = 0, memoryTimers = 0\<rparr>"

subsection \<open>Network and device detection\<close>

text \<open>\<^verbatim>\<open>detectNetworkSpeed\<close> (lines 250--289). With a connection object the effective type
  decides, and an unknown or missing type leaves the field as it was; without one the
  navigation timing decides; without either the field is unchanged; the \<^verbatim>\<open>catch\<close>
  branch sets \<open>Normal\<close>.\<close>

definition classify_effective_type :: "string \<Rightarrow> network_speed option" where
  "classify_effective_type t =
     (if t = ''4g'' \<or> t = ''wifi'' then Some Fast
      else if t = ''3g'' then Some Normal
      else if t = ''2g'' \<or> t = ''slow-2g'' then Some Slow
      else None)"

definition classify_load_time :: "int \<Rightarrow> network_speed" where
  "classify_load_time pageLoadTime =
     (if pageLoadTime > 3000 then Slow else if pageLoadTime > 1500 then Normal else Fast)"

definition detectNetworkSpeed :: "browser_env \<Rightarrow> network_speed \<Rightarrow> network_speed" where
  "detectNetworkSpeed env current =
     (if networkProbeThrows env then Normal
      else case connection env of
        Some c \<Rightarrow>
          (case effectiveType c of
             Some t \<Rightarrow> (case classify_effective_type t of Some v \<Rightarrow> v | None \<Rightarrow> current)
           | None \<Rightarrow> current)
      | None \<Rightarrow>
          (case timing env of
             Some tm \<Rightarrow> classify_load_time (loadEventEnd tm - navigationStart tm)
           | None \<Rightarrow> current))"

text \<open>\<^verbatim>\<open>detectDeviceCapability\<close> (lines 295--315). \<^verbatim>\<open>x || d\<close> replaces an absent or
  zero value by the default. The user-agent test \<^verbatim>\<open>/Android|...|Opera Mini/i\<close> is a
  case-insensitive search for any alternative: an ASCII pattern can only match ASCII
  characters, and it does so up to ASCII case.\<close>

definition mobile_tokens :: "string list" where
  "mobile_tokens =
     [''Android'', ''webOS'', ''iPhone'', ''iPad'', ''iPod'', ''BlackBerry'', ''IEMobile'',
      ''Opera Mini'']"

definition is_mobile_ua :: "string \<Rightarrow> bool" where
  "is_mobile_ua ua \<longleftrightarrow>
     list_ex (\<lambda>p. js_includes (map ascii_lower ua) (map ascii_lower p)) mobile_tokens"

definition classify_device :: "nat \<Rightarrow> rat \<Rightarrow> bool \<Rightarrow> device_capability" where
  "classify_device cores ram isMobile =
     (if cores \<ge> 4 \<and> ram \<ge> 8 \<and> \<not> isMobile then High
      else if cores \<ge> 2 \<and> ram \<ge> 4 then Medium
      else Low)"

definition detectDeviceCapability :: "browser_env \<Rightarrow> device_capability" where
  "detectDeviceCapability env =
     (if deviceProbeThrows env then Medium
      else
        let cores = (case hardwareConcurrency env of Some n \<Rightarrow> if n = 0 then 1 else n | None \<Rightarrow> 1);
            ram = (case deviceMemory env of Some r \<Rightarrow> if r = 0 then 4 else r | None \<Rightarrow> 4)
        in classify_device cores ram (is_mobile_ua (userAgent env)))"

subsection \<open>Initialisation, monitors and reset\<close>

text \<open>\<^verbatim>\<open>init()\<close> (lines 225--244): both detectors, then one PerformanceObserver when the
  API exists (lines 321--342) and one 5-second memory timer when \<^verbatim>\<open>performance.memory\<close>
  exists (lines 348--367).\<close>

definition ap_init :: "browser_env \<Rightarrow> adaptive_state \<Rightarrow> adaptive_state" where
  "ap_init env s =
     (let s1 = s\<lparr>networkSpeed := detectNetworkSpeed env (networkSpeed s)\<rparr>;
          s2 = s1\<lparr>deviceCapability := detectDeviceCapability env\<rparr>;
          s3 = (if hasPerformanceObserver env then s2\<lparr>observers := Suc (observers s2)\<rparr> else s2)
      in if hasMemoryAPI env then s3\<lparr>memoryTimers := Suc (memoryTimers s3)\<rparr> else s3)"

definition new_AdaptivePerformanceSystem :: "browser_env \<Rightarrow> adaptive_state" where
  "new_AdaptivePerformanceSystem env = ap_init env fresh_adaptive_state"

text \<open>One firing of the memory timer (lines 351--361). The ratio is
  \<^verbatim>\<open>usedJSHeapSize / jsHeapSizeLimit\<close>; with a zero limit JavaScript gives
  \<open>Infinity\<close> (above 0.9) for a positive numerator and \<open>NaN\<close> (no comparison holds)
  for zero.\<close>

definition memory_tick :: "browser_env \<Rightarrow> rat \<Rightarrow> rat \<Rightarrow> adaptive_state \<Rightarrow> adaptive_state" where
  "memory_tick env used limit s =
     (let high = (if limit = 0 then used > 0 else used / limit > 9 / 10);
          low = (limit \<noteq> 0 \<and> used / limit < 1 / 2)
      in if high then s\<lparr>deviceCapability := Low\<rparr>
         else if low \<and> deviceCapability s = Low
         then s\<lparr>deviceCapability := detectDeviceCapability env\<rparr>
         else s)"

text \<open>\<^verbatim>\<open>recordMetric\<close> (lines 373--383): append with the time stamp, then drop the oldest
  entry when the history is longer than \<^verbatim>\<open>maxMetricsHistory\<close>.\<close>

definition recordMetric :: "adaptive_state \<Rightarrow> perf_metric \<Rightarrow> int \<Rightarrow> adaptive_state" where
  "recordMetric s m now =
     (let ms = performanceMetrics s @ [m\<lparr>metric_timestamp := now\<rparr>]
      in s\<lparr>performanceMetrics := (if length ms > maxMetricsHistory s then tl ms else ms)\<rparr>)"

definition entry_metric :: "resource_entry \<Rightarrow> perf_metric" where
  "entry_metric e =
     \<lparr>metric_type = ''resource'', metric_name = entry_name e, metric_duration = entry_duration e,
      metric_size = (case entry_transferSize e of Some z \<Rightarrow> z | None \<Rightarrow> 0),
      metric_timestamp = 0\<rparr>"

text \<open>The observer callback (lines 325--334) records every entry of its list; the browser
  calls each registered observer's callback with the new entries.\<close>

definition observer_callback :: "resource_entry list \<Rightarrow> int \<Rightarrow> adaptive_state \<Rightarrow> adaptive_state" where
  "observer_callback es now s = fold (\<lambda>e s. recordMetric s (entry_metric e) now) es s"

definition deliver_entries :: "resource_entry list \<Rightarrow> int \<Rightarrow> adaptive_state \<Rightarrow> adaptive_state" where
  "deliver_entries es now s = (observer_callback es now ^^ observers s) s"

text \<open>\<^verbatim>\<open>reset()\<close> (lines 508--512): empty the history and run \<^verbatim>\<open>init()\<close> again.\<close>

definition ap_reset :: "browser_env \<Rightarrow> adaptive_state \<Rightarrow> adaptive_state" where
  "ap_reset env s = ap_init env (s\<lparr>performanceMetrics := []\<rparr>)"

subsection \<open>getTimeout\<close>

text \<open>
  \<^verbatim>\<open>this.baseTimeouts[operation] || 5000\<close> (line 393) reads a property of a plain object:
  an own key gives its value (a zero value falls back to 5000), a key of
  \<^verbatim>\<open>Object.prototype\<close> gives a function or an object, whose product with a number is
  \<open>NaN\<close>, and any other key falls back to 5000. \<open>None\<close> is that \<open>NaN\<close>.
\<close>

definition object_prototype_keys :: "string list" where
  "object_prototype_keys =
     [''constructor'', ''hasOwnProperty'', ''isPrototypeOf'', ''propertyIsEnumerable'',
      ''toLocaleString'', ''toString'', ''valueOf'', ''__proto__'', ''__defineGetter__'',
      ''__defineSetter__'', ''__lookupGetter__'', ''__lookupSetter__'']"

definition base_timeout :: "(string \<times> int) list \<Rightarrow> string \<Rightarrow> rat option" where
  "base_timeout bt op =
     (case map_of bt op of
        Some v \<Rightarrow> Some (if v = 0 then 5000 else of_int v)
      | None \<Rightarrow> if op \<in> set object_prototype_keys then None else Some 5000)"

fun network_multiplier :: "network_speed \<Rightarrow> rat" where
  "network_multiplier Fast = 4 / 5"
| "network_multiplier Normal = 1"
| "network_multiplier Slow = 2"

fun device_multiplier :: "device_capability \<Rightarrow> rat" where
  "device_multiplier High = 4 / 5"
| "device_multiplier Medium = 1"
| "device_multiplier Low = 3 / 2"

definition getTimeout :: "adaptive_state \<Rightarrow> string \<Rightarrow> int option" where
  "getTimeout s op =
     map_option
       (\<lambda>b. round (b * network_multiplier (networkSpeed s) * device_multiplier (deviceCapability s)))
       (base_timeout (baseTimeouts s) op)"

subsection \<open>getPerformanceReport\<close>

text \<open>The numbers of the report (lines 487--502); \<^verbatim>\<open>toFixed(2)\<close> and the time stamp
  are formatting.\<close>

record perf_report =
  report_networkSpeed :: network_speed
  report_deviceCapability :: device_capability
  metricsCount :: nat
  avgDuration :: rat
  totalSizeKB :: rat

definition getPerformanceReport :: "adaptive_state \<Rightarrow> perf_report" where
  "getPerformanceReport s =
     (let ms = performanceMetrics s;
          avg = (if length ms > 0 then sum_list (map metric_duration ms) / of_nat (length ms) else 0)
      in \<lparr>report_networkSpeed = networkSpeed s, report_deviceCapability = deviceCapability s,
          metricsCount = length ms, avgDuration = avg,
          totalSizeKB = sum_list (map metric_size ms) / 1024\<rparr>)"

subsection \<open>Specification helpers, events and fixtures\<close>

fun timeout_factor :: "network_speed \<Rightarrow> device_capability \<Rightarrow> int" where
  "timeout_factor Fast High = 32"
| "timeout_factor Fast Medium = 40"
| "timeout_factor Fast Low = 60"
| "timeout_factor Normal High = 40"
| "timeout_factor Normal Medium = 50"
| "timeout_factor Normal Low = 75"
| "timeout_factor Slow High = 80"
| "timeout_factor Slow Medium = 100"
| "timeout_factor Slow Low = 150"

text \<open>The specification of the bounded history: the newest \<open>n\<close> elements of a list.\<close>

definition newest :: "nat \<Rightarrow> 'a list \<Rightarrow> 'a list" where
  "newest n xs = drop (length xs - n) xs"

definition stamp :: "int \<Rightarrow> perf_metric \<Rightarrow> perf_metric" where
  "stamp now m = m\<lparr>metric_timestamp := now\<rparr>"

text \<open>What drives the object after construction: the browser delivering resource entries to
  the registered observers, a memory timer firing, and \<^verbatim>\<open>window.resetAdaptivePerformance()\<close>
  (lines 516--520).\<close>

datatype adaptive_event =
    ResourceEntries "resource_entry list" int
  | MemoryCheck browser_env rat rat
  | ResetSystem browser_env

fun adaptive_step :: "adaptive_state \<Rightarrow> adaptive_event \<Rightarrow> adaptive_state" where
  "adaptive_step s (ResourceEntries es now) = deliver_entries es now s"
| "adaptive_step s (MemoryCheck env used limit) =
     (if 0 < memoryTimers s then memory_tick env used limit s else s)"
| "adaptive_step s (ResetSystem env) = ap_reset env s"

fun adaptive_run :: "adaptive_state \<Rightarrow> adaptive_event list \<Rightarrow> adaptive_state" where
  "adaptive_run s [] = s"
| "adaptive_run s (e # es) = adaptive_run (adaptive_step s e) es"

text \<open>The invariant: the history is within its bound and the configuration fields are the
  constructor's.\<close>

definition ap_inv :: "adaptive_state \<Rightarrow> bool" where
  "ap_inv s \<longleftrightarrow>
     length (performanceMetrics s) \<le> maxMetricsHistory s \<and> maxMetricsHistory s = 100 \<and>
     baseTimeouts s = default_baseTimeouts \<and> retryAttempts s = 3 \<and>
     retryBackoffMultiplier s = 3 / 2"

text \<open>Two sampled environments used by the witnesses: a desktop on 4G, and a phone whose
  script runs before the page's load event has finished.\<close>

definition desktop_4g_env :: browser_env where
  "desktop_4g_env =
     \<lparr>connection = Some \<lparr>effectiveType = Some ''4g'', downlink = Some 10\<rparr>, timing = None,
      hardwareConcurrency = Some 8, deviceMemory = Some 8,
      userAgent = ''Mozilla/5.0 (X11; Linux x86_64) Firefox/128.0'',
      hasPerformanceObserver = True, hasMemoryAPI = True,
      networkProbeThrows = False, deviceProbeThrows = False\<rparr>"

definition loading_page_env :: browser_env where
  "loading_page_env =
     \<lparr>connection = None,
      timing = Some \<lparr>navigationStart = 1700000000000, loadEventEnd = 0\<rparr>,
      hardwareConcurrency = Some 2, deviceMemory = Some 2,
      userAgent = ''Mozilla/5.0 (iPhone; CPU iPhone OS 17_0) Mobile Safari'',
      hasPerformanceObserver = True, hasMemoryAPI = False,
      networkProbeThrows = False, deviceProbeThrows = False\<rparr>"

subsection \<open>Facts about the operations\<close>

lemma multipliers_pos [simp]: "0 < network_multiplier n" "0 < device_multiplier d"
  by (cases n; simp) (cases d; simp)

lemma network_multiplier_mono: "n \<le> n' \<Longrightarrow> network_multiplier n \<le> network_multiplier n'"
  by (cases n; cases n') (simp_all add: less_eq_network_speed_def)

lemma device_multiplier_mono: "d \<le> d' \<Longrightarrow> device_multiplier d \<le> device_multiplier d'"
  by (cases d; cases d') (simp_all add: less_eq_device_capability_def)

lemma map_of_default_baseTimeouts:
  "map_of default_baseTimeouts op = Some v \<Longrightarrow> v \<in> {150, 300, 5000, 8000, 15000, 45000}"
  by (auto simp: default_baseTimeouts_def split: if_splits)

lemma base_timeout_default:
  assumes "base_timeout default_baseTimeouts op = Some b"
  shows "\<exists>k::int. b = of_int (50 * k) \<and> 3 \<le> k \<and> k \<le> 900"
proof (cases "map_of default_baseTimeouts op")
  case None
  with assms have "b = 5000" by (simp add: base_timeout_def split: if_splits)
  then show ?thesis by (intro exI [of _ 100]) simp
next
  case (Some v)
  with assms have b: "b = of_int v" using map_of_default_baseTimeouts [OF Some]
    by (auto simp: base_timeout_def)
  from map_of_default_baseTimeouts [OF Some]
  have "\<exists>k::int. v = 50 * k \<and> 3 \<le> k \<and> k \<le> 900" by (auto intro: exI [of _ 3])
  then show ?thesis
    by (auto simp: b intro: exI [of _ 3] exI [of _ 6] exI [of _ 100] exI [of _ 160] exI [of _ 300] exI [of _ 900])
qed

lemma timeout_factor_eq:
  "50 * network_multiplier n * device_multiplier d = of_int (timeout_factor n d)"
  by (cases n; cases d) simp_all

lemma timeout_factor_bounds: "32 \<le> timeout_factor n d \<and> timeout_factor n d \<le> 150"
  by (cases n; cases d) simp_all

lemma timeout_factor_mono:
  "n \<le> n' \<Longrightarrow> d \<le> d' \<Longrightarrow> timeout_factor n d \<le> timeout_factor n' d'"
  by (cases n; cases n'; cases d; cases d')
    (simp_all add: less_eq_network_speed_def less_eq_device_capability_def)

lemma scaled_product:
  "(of_int (50 * k) :: rat) * network_multiplier n * device_multiplier d =
   of_int (k * timeout_factor n d)"
proof -
  have "(of_int (50 * k) :: rat) * network_multiplier n * device_multiplier d =
        of_int k * (50 * network_multiplier n * device_multiplier d)"
    by (simp add: algebra_simps)
  also have "\<dots> = of_int (k * timeout_factor n d)" by (simp add: timeout_factor_eq)
  finally show ?thesis .
qed

lemma getTimeout_scaled:
  assumes "baseTimeouts s = default_baseTimeouts" and "base_timeout default_baseTimeouts op = Some b"
  obtains k where "b = of_int (50 * k)" "3 \<le> k" "k \<le> 900"
    and "getTimeout s op = Some (k * timeout_factor (networkSpeed s) (deviceCapability s))"
proof -
  obtain k where k: "b = of_int (50 * k)" "3 \<le> k" "k \<le> 900"
    using base_timeout_default [OF assms(2)] by blast
  then have "getTimeout s op = Some (k * timeout_factor (networkSpeed s) (deviceCapability s))"
    using assms by (simp add: getTimeout_def scaled_product del: of_int_mult)
  with k that show ?thesis by blast
qed

lemma base_timeout_default_pos: "base_timeout default_baseTimeouts op = Some b \<Longrightarrow> 0 < b"
  using base_timeout_default by fastforce

lemma getTimeout_nonneg:
  assumes "baseTimeouts s = default_baseTimeouts" and "getTimeout s op = Some d"
  shows "0 \<le> d"
proof -
  obtain b where b: "base_timeout default_baseTimeouts op = Some b"
    using assms by (auto simp: getTimeout_def)
  have "0 < b" using b by (rule base_timeout_default_pos)
  then show ?thesis
    using assms b less_imp_le [OF multipliers_pos(1)] less_imp_le [OF multipliers_pos(2)]
    by (auto simp: getTimeout_def round_def intro!: add_nonneg_nonneg mult_nonneg_nonneg)
qed

lemma getTimeout_le:
  assumes "baseTimeouts s = default_baseTimeouts" and "getTimeout s op = Some t"
  shows "t \<le> 135000"
proof -
  from assms obtain b where b: "base_timeout default_baseTimeouts op = Some b"
    by (auto simp: getTimeout_def)
  obtain k where k: "k \<le> 900" "3 \<le> k"
    and "getTimeout s op = Some (k * timeout_factor (networkSpeed s) (deviceCapability s))"
    using getTimeout_scaled [OF assms(1) b] by blast
  with assms(2) have t: "t = k * timeout_factor (networkSpeed s) (deviceCapability s)" by simp
  have "0 \<le> timeout_factor (networkSpeed s) (deviceCapability s)"
    "timeout_factor (networkSpeed s) (deviceCapability s) \<le> 150"
    using timeout_factor_bounds [of "networkSpeed s" "deviceCapability s"] by linarith+
  then have "t \<le> 900 * 150" unfolding t using k by (intro mult_mono) auto
  then show ?thesis by simp
qed

lemma newest_append_newest: "newest n (newest n xs @ ys) = newest n (xs @ ys)"
proof -
  have "length xs + length ys - (length xs - n + n) + (length xs - n) = length xs + length ys - n"
    by arith
  then show ?thesis by (simp add: newest_def)
qed

lemma concat_replicate_Suc_right: "concat (replicate (Suc k) l) = concat (replicate k l) @ l"
  by (induction k) simp_all

lemma recordMetric_fields [simp]:
  "networkSpeed (recordMetric s m now) = networkSpeed s"
  "deviceCapability (recordMetric s m now) = deviceCapability s"
  "baseTimeouts (recordMetric s m now) = baseTimeouts s"
  "retryAttempts (recordMetric s m now) = retryAttempts s"
  "retryBackoffMultiplier (recordMetric s m now) = retryBackoffMultiplier s"
  "maxMetricsHistory (recordMetric s m now) = maxMetricsHistory s"
  "observers (recordMetric s m now) = observers s"
  "memoryTimers (recordMetric s m now) = memoryTimers s"
  by (simp_all add: recordMetric_def Let_def)

lemma recordMetric_newest:
  assumes "length (performanceMetrics s) \<le> maxMetricsHistory s"
  shows "performanceMetrics (recordMetric s m now) =
           newest (maxMetricsHistory s) (performanceMetrics s @ [stamp now m])"
proof (cases "length (performanceMetrics s) < maxMetricsHistory s")
  case True
  then show ?thesis by (simp add: recordMetric_def newest_def stamp_def Let_def)
next
  case False
  with assms have eq: "maxMetricsHistory s = length (performanceMetrics s)" by simp
  show ?thesis
    by (cases "performanceMetrics s") (simp_all add: recordMetric_def newest_def stamp_def Let_def eq)
qed

lemma newest_length: "length (newest n xs) \<le> n"
  by (simp add: newest_def)

lemma fold_recordMetric_newest:
  assumes "length (performanceMetrics s) \<le> maxMetricsHistory s"
  shows "performanceMetrics (fold (\<lambda>m s. recordMetric s m now) ms s) =
           newest (maxMetricsHistory s) (performanceMetrics s @ map (stamp now) ms)"
  using assms
proof (induction ms arbitrary: s)
  case Nil
  then show ?case by (simp add: newest_def)
next
  case (Cons m ms)
  let ?s' = "recordMetric s m now"
  have eq: "performanceMetrics ?s' = newest (maxMetricsHistory s) (performanceMetrics s @ [stamp now m])"
    using Cons.prems by (rule recordMetric_newest)
  then have "length (performanceMetrics ?s') \<le> maxMetricsHistory ?s'"
    by (simp add: newest_length)
  then have "performanceMetrics (fold (\<lambda>m s. recordMetric s m now) ms ?s') =
      newest (maxMetricsHistory s) (performanceMetrics ?s' @ map (stamp now) ms)"
    using Cons.IH by simp
  with eq show ?case by (simp add: newest_append_newest)
qed

lemma observer_callback_eq:
  "observer_callback es now s = fold (\<lambda>m s. recordMetric s m now) (map entry_metric es) s"
  by (simp add: observer_callback_def fold_map comp_def)

lemma observer_callback_fields [simp]:
  "networkSpeed (observer_callback es now s) = networkSpeed s"
  "deviceCapability (observer_callback es now s) = deviceCapability s"
  "baseTimeouts (observer_callback es now s) = baseTimeouts s"
  "retryAttempts (observer_callback es now s) = retryAttempts s"
  "retryBackoffMultiplier (observer_callback es now s) = retryBackoffMultiplier s"
  "maxMetricsHistory (observer_callback es now s) = maxMetricsHistory s"
  "observers (observer_callback es now s) = observers s"
  "memoryTimers (observer_callback es now s) = memoryTimers s"
  unfolding observer_callback_def by (induction es arbitrary: s; simp)+

lemma observer_callbacks_newest:
  assumes "length (performanceMetrics s) \<le> maxMetricsHistory s"
  shows "performanceMetrics ((observer_callback es now ^^ k) s) =
           newest (maxMetricsHistory s)
             (performanceMetrics s @ concat (replicate k (map (\<lambda>e. stamp now (entry_metric e)) es)))"
proof (induction k)
  case 0
  with assms show ?case by (simp add: newest_def)
next
  case (Suc k)
  let ?t = "(observer_callback es now ^^ k) s"
  have mx: "maxMetricsHistory ?t = maxMetricsHistory s"
    by (induction k) simp_all
  have "length (performanceMetrics ?t) \<le> maxMetricsHistory ?t"
    using Suc.IH mx by (simp add: newest_length)
  then have "performanceMetrics (observer_callback es now ?t) =
      newest (maxMetricsHistory ?t) (performanceMetrics ?t @ map (\<lambda>e. stamp now (entry_metric e)) es)"
    by (simp add: observer_callback_eq fold_recordMetric_newest comp_def)
  then show ?case
    using Suc.IH mx by (simp add: newest_append_newest concat_replicate_Suc_right del: replicate_Suc)
qed

lemma ap_init_fields [simp]:
  "networkSpeed (ap_init env s) = detectNetworkSpeed env (networkSpeed s)"
  "deviceCapability (ap_init env s) = detectDeviceCapability env"
  "baseTimeouts (ap_init env s) = baseTimeouts s"
  "retryAttempts (ap_init env s) = retryAttempts s"
  "retryBackoffMultiplier (ap_init env s) = retryBackoffMultiplier s"
  "performanceMetrics (ap_init env s) = performanceMetrics s"
  "maxMetricsHistory (ap_init env s) = maxMetricsHistory s"
  "observers (ap_init env s) = (if hasPerformanceObserver env then Suc (observers s) else observers s)"
  "memoryTimers (ap_init env s) = (if hasMemoryAPI env then Suc (memoryTimers s) else memoryTimers s)"
  by (simp_all add: ap_init_def Let_def)

lemma memory_tick_fields [simp]:
  "networkSpeed (memory_tick env u l s) = networkSpeed s"
  "baseTimeouts (memory_tick env u l s) = baseTimeouts s"
  "retryAttempts (memory_tick env u l s) = retryAttempts s"
  "retryBackoffMultiplier (memory_tick env u l s) = retryBackoffMultiplier s"
  "performanceMetrics (memory_tick env u l s) = performanceMetrics s"
  "maxMetricsHistory (memory_tick env u l s) = maxMetricsHistory s"
  "observers (memory_tick env u l s) = observers s"
  "memoryTimers (memory_tick env u l s) = memoryTimers s"
  by (simp_all add: memory_tick_def Let_def)

lemma observer_callbacks_fields [simp]:
  "baseTimeouts ((observer_callback es now ^^ k) s) = baseTimeouts s"
  "retryAttempts ((observer_callback es now ^^ k) s) = retryAttempts s"
  "retryBackoffMultiplier ((observer_callback es now ^^ k) s) = retryBackoffMultiplier s"
  "maxMetricsHistory ((observer_callback es now ^^ k) s) = maxMetricsHistory s"
  "observers ((observer_callback es now ^^ k) s) = observers s"
  by (induction k) simp_all

lemma ap_inv_step: "ap_inv s \<Longrightarrow> ap_inv (adaptive_step s e)"
proof (cases e)
  case (ResourceEntries es now)
  then show ?thesis if "ap_inv s"
    using that observer_callbacks_newest [where s = s and es = es and now = now and k = "observers s"]
    by (simp add: ap_inv_def deliver_entries_def newest_length)
next
  case (MemoryCheck env used limit)
  then show ?thesis if "ap_inv s" using that by (simp add: ap_inv_def)
next
  case (ResetSystem env)
  then show ?thesis if "ap_inv s" using that by (simp add: ap_inv_def ap_reset_def)
qed

lemma ap_inv_run: "ap_inv s \<Longrightarrow> ap_inv (adaptive_run s evs)"
  by (induction evs arbitrary: s) (simp_all add: ap_inv_step)

lemma ap_inv_new: "ap_inv (new_AdaptivePerformanceSystem env)"
  by (simp add: ap_inv_def new_AdaptivePerformanceSystem_def fresh_adaptive_state_def)

lemma desktop_4g_env_new:
  "networkSpeed (new_AdaptivePerformanceSystem desktop_4g_env) = Fast"
  "deviceCapability (new_AdaptivePerformanceSystem desktop_4g_env) = High"
  "baseTimeouts (new_AdaptivePerformanceSystem desktop_4g_env) = default_baseTimeouts"
  by code_simp+

subsection \<open>Properties of the adaptive performance system\<close>

text \<open>Claim C8. \<^verbatim>\<open>getTimeout(operation)\<close> with the constructor's table returns the product of the
  base timeout and the two multipliers exactly: every base is a multiple of 50, so the product
  is a whole number and \<^verbatim>\<open>Math.round\<close> does not change it.\<close>

theorem getTimeout_exact:
  assumes "baseTimeouts s = default_baseTimeouts" and "base_timeout default_baseTimeouts op = Some b"
  shows "\<exists>t. getTimeout s op = Some t \<and>
           of_int t = b * network_multiplier (networkSpeed s) * device_multiplier (deviceCapability s)"
proof -
  obtain k where "b = of_int (50 * k)"
    and t: "getTimeout s op = Some (k * timeout_factor (networkSpeed s) (deviceCapability s))"
    using getTimeout_scaled [OF assms] by blast
  then show ?thesis by (simp add: scaled_product del: of_int_mult)
qed

theorem getTimeout_exact_witness:
  "baseTimeouts (new_AdaptivePerformanceSystem desktop_4g_env) = default_baseTimeouts \<and>
   base_timeout default_baseTimeouts ''bookingsLoad'' = Some 15000 \<and>
   (\<exists>t. getTimeout (new_AdaptivePerformanceSystem desktop_4g_env) ''bookingsLoad'' = Some t \<and>
        of_int t = (15000 :: rat) * network_multiplier Fast * device_multiplier High)"
proof -
  have h1: "baseTimeouts (new_AdaptivePerformanceSystem desktop_4g_env) = default_baseTimeouts"
    by (simp add: desktop_4g_env_new)
  have h2: "base_timeout default_baseTimeouts ''bookingsLoad'' = Some 15000"
    by (simp add: base_timeout_def default_baseTimeouts_def)
  show ?thesis using getTimeout_exact [OF h1 h2] h1 h2 by (simp add: desktop_4g_env_new)
qed

text \<open>Claim C9. A slower network class or a weaker device class never shortens a timeout: \<^verbatim>\<open>getTimeout\<close>
  is monotone in both classifications.\<close>

theorem getTimeout_monotone:
  assumes "baseTimeouts s = default_baseTimeouts" and "baseTimeouts s' = default_baseTimeouts"
    and "networkSpeed s \<le> networkSpeed s'" and "deviceCapability s \<le> deviceCapability s'"
    and "getTimeout s op = Some t" and "getTimeout s' op = Some t'"
  shows "t \<le> t'"
proof -
  from assms(1,5) obtain b where b: "base_timeout default_baseTimeouts op = Some b"
    by (auto simp: getTimeout_def)
  obtain k where kb: "b = of_int (50 * k)" and k: "3 \<le> k"
    and ts: "getTimeout s op = Some (k * timeout_factor (networkSpeed s) (deviceCapability s))"
    using getTimeout_scaled [OF assms(1) b] by blast
  obtain k' where kb': "b = of_int (50 * k')"
    and ts': "getTimeout s' op = Some (k' * timeout_factor (networkSpeed s') (deviceCapability s'))"
    using getTimeout_scaled [OF assms(2) b] by blast
  from kb kb' have "k' = k" by simp
  with ts ts' assms(5,6) have "t = k * timeout_factor (networkSpeed s) (deviceCapability s)"
    and "t' = k * timeout_factor (networkSpeed s') (deviceCapability s')"
    by auto
  moreover have "timeout_factor (networkSpeed s) (deviceCapability s)
      \<le> timeout_factor (networkSpeed s') (deviceCapability s')"
    using assms(3,4) by (rule timeout_factor_mono)
  ultimately show ?thesis using k by (simp add: mult_left_mono)
qed

theorem getTimeout_monotone_witness:
  "baseTimeouts fresh_adaptive_state = default_baseTimeouts \<and>
   baseTimeouts (fresh_adaptive_state\<lparr>networkSpeed := Slow\<rparr>) = default_baseTimeouts \<and>
   networkSpeed fresh_adaptive_state \<le> networkSpeed (fresh_adaptive_state\<lparr>networkSpeed := Slow\<rparr>) \<and>
   deviceCapability fresh_adaptive_state \<le> deviceCapability (fresh_adaptive_state\<lparr>networkSpeed := Slow\<rparr>) \<and>
   getTimeout fresh_adaptive_state ''bookingsLoad'' = Some 15000 \<and>
   getTimeout (fresh_adaptive_state\<lparr>networkSpeed := Slow\<rparr>) ''bookingsLoad'' = Some 30000 \<and>
   (15000::int) \<le> 30000"
proof -
  have h1: "baseTimeouts fresh_adaptive_state = default_baseTimeouts"
    by (simp add: fresh_adaptive_state_def)
  have h2: "baseTimeouts (fresh_adaptive_state\<lparr>networkSpeed := Slow\<rparr>) = default_baseTimeouts"
    by (simp add: fresh_adaptive_state_def)
  have h3: "networkSpeed fresh_adaptive_state \<le> networkSpeed (fresh_adaptive_state\<lparr>networkSpeed := Slow\<rparr>)"
    by (simp add: fresh_adaptive_state_def less_eq_network_speed_def)
  have h4: "deviceCapability fresh_adaptive_state \<le>
      deviceCapability (fresh_adaptive_state\<lparr>networkSpeed := Slow\<rparr>)"
    by simp
  have h5: "getTimeout fresh_adaptive_state ''bookingsLoad'' = Some 15000"
    by (simp add: getTimeout_def base_timeout_def fresh_adaptive_state_def default_baseTimeouts_def)
  have h6: "getTimeout (fresh_adaptive_state\<lparr>networkSpeed := Slow\<rparr>) ''bookingsLoad'' = Some 30000"
    by (simp add: getTimeout_def base_timeout_def fresh_adaptive_state_def default_baseTimeouts_def)
  show ?thesis using getTimeout_monotone [OF h1 h2 h3 h4 h5 h6] h1 h2 h3 h4 h5 h6 by simp
qed

text \<open>Claim C10. Every timeout \<^verbatim>\<open>getTimeout\<close> returns with the constructor's table lies between 96 ms
  (\<^verbatim>\<open>scrollDelay\<close> on a fast network and a strong device) and 135000 ms
  (\<^verbatim>\<open>firebaseUser\<close> on a slow network and a weak device).\<close>

theorem getTimeout_bounds:
  assumes "baseTimeouts s = default_baseTimeouts" and "getTimeout s op = Some t"
  shows "96 \<le> t \<and> t \<le> 135000"
proof -
  from assms obtain b where b: "base_timeout default_baseTimeouts op = Some b"
    by (auto simp: getTimeout_def)
  obtain k where k: "3 \<le> k"
    and "getTimeout s op = Some (k * timeout_factor (networkSpeed s) (deviceCapability s))"
    using getTimeout_scaled [OF assms(1) b] by blast
  with assms(2) have t: "t = k * timeout_factor (networkSpeed s) (deviceCapability s)" by simp
  have f: "32 \<le> timeout_factor (networkSpeed s) (deviceCapability s)"
    using timeout_factor_bounds by auto
  have "3 * 32 \<le> t" unfolding t using k f by (intro mult_mono) auto
  with getTimeout_le [OF assms] show ?thesis by simp
qed

theorem getTimeout_bounds_witness:
  "baseTimeouts fresh_adaptive_state = default_baseTimeouts \<and>
   getTimeout fresh_adaptive_state ''debounce'' = Some 300 \<and> 96 \<le> (300::int) \<and> (300::int) \<le> 135000"
proof -
  have h1: "baseTimeouts fresh_adaptive_state = default_baseTimeouts"
    by (simp add: fresh_adaptive_state_def)
  have h2: "getTimeout fresh_adaptive_state ''debounce'' = Some 300"
    by (simp add: getTimeout_def base_timeout_def fresh_adaptive_state_def default_baseTimeouts_def)
  show ?thesis using getTimeout_bounds [OF h1 h2] h1 h2 by simp
qed

text \<open>Claim C11. At construction the network class is: normal when the probe throws; with a
  connection object, fast for the effective types 4g and wifi, normal for 3g, slow for 2g and
  slow-2g, and the default normal for any other or a missing type; without a connection
  object, slow when the page took more than 3000 ms to load, normal above 1500 ms and fast
  otherwise; without either, the default normal.\<close>

theorem new_system_network_speed:
  "networkSpeed (new_AdaptivePerformanceSystem env) =
    (if networkProbeThrows env then Normal
     else case connection env of
       Some c \<Rightarrow>
         (case effectiveType c of
            Some t \<Rightarrow>
              (if t = ''4g'' \<or> t = ''wifi'' then Fast
               else if t = ''3g'' then Normal
               else if t = ''2g'' \<or> t = ''slow-2g'' then Slow
               else Normal)
          | None \<Rightarrow> Normal)
     | None \<Rightarrow>
         (case timing env of
            Some tm \<Rightarrow>
              (if loadEventEnd tm - navigationStart tm > 3000 then Slow
               else if loadEventEnd tm - navigationStart tm > 1500 then Normal
               else Fast)
          | None \<Rightarrow> Normal))"
  by (simp add: new_AdaptivePerformanceSystem_def fresh_adaptive_state_def detectNetworkSpeed_def
      classify_effective_type_def classify_load_time_def split: option.split)

theorem new_system_network_speed_witness:
  "networkSpeed (new_AdaptivePerformanceSystem desktop_4g_env) = Fast \<and>
   networkSpeed (new_AdaptivePerformanceSystem
     (desktop_4g_env\<lparr>connection := Some \<lparr>effectiveType = Some ''2g'', downlink = None\<rparr>\<rparr>)) = Slow"
  using new_system_network_speed [of desktop_4g_env]
    new_system_network_speed [of "desktop_4g_env\<lparr>connection := Some \<lparr>effectiveType = Some ''2g'', downlink = None\<rparr>\<rparr>"]
  by (simp add: desktop_4g_env_def)

text \<open>Claim C12. Without a connection object, a script that constructs the system before the page's load
  event has finished (\<^verbatim>\<open>loadEventEnd\<close> still 0) computes a negative load time and always
  classifies the network as fast, however slow the page load is.\<close>

theorem load_time_fallback_during_page_load:
  assumes "\<not> networkProbeThrows env" and "connection env = None" and "timing env = Some tm"
    and "loadEventEnd tm = 0" and "0 \<le> navigationStart tm"
  shows "networkSpeed (new_AdaptivePerformanceSystem env) = Fast"
  using assms
  by (simp add: new_AdaptivePerformanceSystem_def detectNetworkSpeed_def classify_load_time_def)

theorem load_time_fallback_during_page_load_witness:
  "\<not> networkProbeThrows loading_page_env \<and> connection loading_page_env = None \<and>
   timing loading_page_env = Some \<lparr>navigationStart = 1700000000000, loadEventEnd = 0\<rparr> \<and>
   loadEventEnd \<lparr>navigationStart = 1700000000000, loadEventEnd = 0\<rparr> = 0 \<and>
   0 \<le> navigationStart \<lparr>navigationStart = 1700000000000, loadEventEnd = 0\<rparr> \<and>
   networkSpeed (new_AdaptivePerformanceSystem loading_page_env) = Fast"
proof -
  have h1: "\<not> networkProbeThrows loading_page_env" by (simp add: loading_page_env_def)
  have h2: "connection loading_page_env = None" by (simp add: loading_page_env_def)
  have h3: "timing loading_page_env = Some \<lparr>navigationStart = 1700000000000, loadEventEnd = 0\<rparr>"
    by (simp add: loading_page_env_def)
  have h4: "loadEventEnd \<lparr>navigationStart = 1700000000000, loadEventEnd = 0\<rparr> = 0" by simp
  have h5: "0 \<le> navigationStart \<lparr>navigationStart = 1700000000000, loadEventEnd = 0\<rparr>" by simp
  show ?thesis using load_time_fallback_during_page_load [OF h1 h2 h3 h4 h5] h1 h2 h3 by simp
qed

text \<open>Claim C13. The device classification is monotone: more cores and more memory never give a weaker
  class.\<close>

theorem classify_device_monotone:
  assumes "cores \<le> cores'" and "ram \<le> ram'"
  shows "classify_device cores' ram' mobile \<le> classify_device cores ram mobile"
  using assms by (auto simp: classify_device_def less_eq_device_capability_def)

theorem classify_device_monotone_witness:
  "(2::nat) \<le> 8 \<and> (4::rat) \<le> 16 \<and> classify_device 8 16 False \<le> classify_device 2 4 False \<and>
   classify_device 8 16 False = High \<and> classify_device 2 4 False = Medium"
proof -
  have h1: "(2::nat) \<le> 8" and h2: "(4::rat) \<le> 16" by simp_all
  show ?thesis using classify_device_monotone [OF h1 h2, of False] h1 h2
    by (simp add: classify_device_def)
qed

text \<open>Claim C14. One observer callback leaves exactly the newest \<^verbatim>\<open>maxMetricsHistory\<close> metrics of the
  old history followed by the new entries, each stamped with the callback's time.\<close>

theorem metrics_keep_newest:
  assumes "length (performanceMetrics s) \<le> maxMetricsHistory s"
  shows "performanceMetrics (observer_callback es now s) =
           newest (maxMetricsHistory s)
             (performanceMetrics s @ map (\<lambda>e. stamp now (entry_metric e)) es)"
  using assms by (simp add: observer_callback_eq fold_recordMetric_newest comp_def)

theorem metrics_keep_newest_witness:
  "length (performanceMetrics fresh_adaptive_state) \<le> maxMetricsHistory fresh_adaptive_state \<and>
   performanceMetrics (observer_callback
       [\<lparr>entry_name = ''app.js'', entry_duration = 12, entry_transferSize = None\<rparr>] 1000
       fresh_adaptive_state) =
   newest 100 [stamp 1000 (entry_metric
       \<lparr>entry_name = ''app.js'', entry_duration = 12, entry_transferSize = None\<rparr>)]"
proof -
  have h: "length (performanceMetrics fresh_adaptive_state) \<le> maxMetricsHistory fresh_adaptive_state"
    by (simp add: fresh_adaptive_state_def)
  show ?thesis using metrics_keep_newest [OF h] h by (simp add: fresh_adaptive_state_def)
qed

text \<open>Claim C15. In every state reachable from construction, whatever entries, memory checks and resets
  happen, the metric history holds at most 100 entries and the timeout table and retry count
  keep their constructor values.\<close>

theorem metrics_history_bounded:
  "length (performanceMetrics (adaptive_run (new_AdaptivePerformanceSystem env) evs)) \<le> 100 \<and>
   baseTimeouts (adaptive_run (new_AdaptivePerformanceSystem env) evs) = default_baseTimeouts \<and>
   retryAttempts (adaptive_run (new_AdaptivePerformanceSystem env) evs) = 3"
  using ap_inv_run [OF ap_inv_new, of env evs] by (simp add: ap_inv_def)

text \<open>Claim C16. \<^verbatim>\<open>reset()\<close> runs \<^verbatim>\<open>init()\<close> again and registers a second PerformanceObserver
  without disconnecting the first, so after one reset every resource entry is recorded twice.\<close>

theorem reset_records_entries_twice:
  assumes "hasPerformanceObserver env"
  shows "performanceMetrics (deliver_entries es now (ap_reset env (new_AdaptivePerformanceSystem env))) =
           newest 100 (concat (replicate 2 (map (\<lambda>e. stamp now (entry_metric e)) es)))"
proof -
  let ?s = "ap_reset env (new_AdaptivePerformanceSystem env)"
  have s: "observers ?s = 2" "performanceMetrics ?s = []" "maxMetricsHistory ?s = 100"
    using assms
    by (simp_all add: ap_reset_def new_AdaptivePerformanceSystem_def fresh_adaptive_state_def)
  then show ?thesis
    using observer_callbacks_newest [where s = ?s and es = es and now = now and k = 2] by (simp add: deliver_entries_def)
qed

theorem reset_records_entries_twice_witness:
  "hasPerformanceObserver desktop_4g_env \<and>
   length (performanceMetrics (deliver_entries
       [\<lparr>entry_name = ''app.js'', entry_duration = 12, entry_transferSize = Some 2048\<rparr>] 1000
       (ap_reset desktop_4g_env (new_AdaptivePerformanceSystem desktop_4g_env)))) = 2"
proof -
  have h: "hasPerformanceObserver desktop_4g_env" by (simp add: desktop_4g_env_def)
  show ?thesis using reset_records_entries_twice [OF h] h by (simp add: newest_def)
qed

text \<open>Claim C17. The memory monitor downgrades the device to low above 90% heap use, and a later check below
  50% re-runs the device detection, restoring the detected class.\<close>

theorem memory_pressure_degrade_restore:
  assumes "0 < limit" and "9 / 10 < used1 / limit" and "used2 / limit < 1 / 2"
  shows "deviceCapability (memory_tick env1 used1 limit s) = Low \<and>
         deviceCapability (memory_tick env2 used2 limit (memory_tick env1 used1 limit s)) =
           detectDeviceCapability env2"
proof -
  have low: "\<not> 9 / 10 < used2 / limit" using assms(3) by linarith
  have "deviceCapability (memory_tick env1 used1 limit s) = Low"
    using assms(1,2) by (simp add: memory_tick_def Let_def)
  with assms(1,3) low show ?thesis by (simp add: memory_tick_def Let_def del: divide_less_eq)
qed

theorem memory_pressure_degrade_restore_witness:
  "0 < (100::rat) \<and> 9 / 10 < (95::rat) / 100 \<and> (10::rat) / 100 < 1 / 2 \<and>
   deviceCapability (memory_tick desktop_4g_env 95 100 fresh_adaptive_state) = Low \<and>
   deviceCapability (memory_tick desktop_4g_env 10 100
       (memory_tick desktop_4g_env 95 100 fresh_adaptive_state)) =
     detectDeviceCapability desktop_4g_env"
proof -
  have h1: "0 < (100::rat)" and h2: "9 / 10 < (95::rat) / 100" and h3: "(10::rat) / 100 < 1 / 2"
    by simp_all
  show ?thesis using memory_pressure_degrade_restore [OF h1 h2 h3] h1 h2 h3 by blast
qed

text \<open>Claim C35. The type of \<^verbatim>\<open>getTimeout\<close>'s result: it is a number for every operation
  name, except exactly the names that are keys of \<^verbatim>\<open>Object.prototype\<close> and not own keys
  of the table, for which it is \<open>NaN\<close>.\<close>

theorem getTimeout_number_iff:
  "getTimeout s op = None \<longleftrightarrow>
     op \<in> set object_prototype_keys \<and> map_of (baseTimeouts s) op = None"
  by (simp add: getTimeout_def base_timeout_def split: option.split)

text \<open>Claim C36. \<^verbatim>\<open>reset()\<close> returns the object to the state the constructor gives it in
  the same environment (history emptied, both classes detected afresh, configuration
  unchanged), except that the observer and timer registrations of every earlier
  \<^verbatim>\<open>init()\<close> stay, and except the network class when the detection keeps the previous
  value (no connection type it knows and no timing).\<close>

theorem reset_restores_construction:
  assumes "ap_inv s" and "detectNetworkSpeed env (networkSpeed s) = detectNetworkSpeed env Normal"
  shows "ap_reset env s =
           (new_AdaptivePerformanceSystem env)\<lparr>
              observers := observers s + observers (new_AdaptivePerformanceSystem env),
              memoryTimers := memoryTimers s + memoryTimers (new_AdaptivePerformanceSystem env)\<rparr>"
  using assms
  by (cases s) (simp add: ap_reset_def new_AdaptivePerformanceSystem_def ap_init_def Let_def
      fresh_adaptive_state_def ap_inv_def)

theorem reset_restores_construction_witness:
  "ap_inv (new_AdaptivePerformanceSystem desktop_4g_env) \<and>
   detectNetworkSpeed desktop_4g_env (networkSpeed (new_AdaptivePerformanceSystem desktop_4g_env)) =
     detectNetworkSpeed desktop_4g_env Normal \<and>
   ap_reset desktop_4g_env (new_AdaptivePerformanceSystem desktop_4g_env) =
     (new_AdaptivePerformanceSystem desktop_4g_env)\<lparr>observers := 2, memoryTimers := 2\<rparr>"
proof -
  have h1: "ap_inv (new_AdaptivePerformanceSystem desktop_4g_env)" by (rule ap_inv_new)
  have h2: "detectNetworkSpeed desktop_4g_env (networkSpeed (new_AdaptivePerformanceSystem desktop_4g_env)) =
      detectNetworkSpeed desktop_4g_env Normal"
    by (simp add: detectNetworkSpeed_def desktop_4g_env_def classify_effective_type_def)
  have "observers (new_AdaptivePerformanceSystem desktop_4g_env) = 1"
    "memoryTimers (new_AdaptivePerformanceSystem desktop_4g_env) = 1"
    by (simp_all add: new_AdaptivePerformanceSystem_def desktop_4g_env_def fresh_adaptive_state_def)
  then show ?thesis using reset_restores_construction [OF h1 h2] h1 h2 by simp
qed

end
