(* ===== verification/Retry.thy ===== *)
theory Retry
  imports Adaptive
begin

text \<open>
  The two asynchronous helpers of \<^verbatim>\<open>AdaptivePerformanceSystem\<close>
  (\<^verbatim>\<open>src/website-main/htdocs/js/console-manager.js\<close>, lines 433--479). The operation a
  caller passes is modelled by what its successive invocations do: \<open>op k\<close> is the outcome
  of the \<open>k\<close>-th call, a value it resolves with or a reason it rejects with. The effects
  the loop has on the outside world, calling the operation and sleeping between attempts, are
  the trace of \<open>retry_event\<close>s it returns with its result.
\<close>

subsection \<open>Outcomes, failures and the trace\<close>

text \<open>A rejection reason is either a value with a \<^verbatim>\<open>message\<close> property lookup that
  succeeds (any value but \<^verbatim>\<open>null\<close> and \<^verbatim>\<open>undefined\<close>) or a nullish value, for which
  \<^verbatim>\<open>error.message\<close> on line 444 throws a \<^verbatim>\<open>TypeError\<close>.\<close>

datatype 'e reason = Nullish | Reason 'e

datatype ('a, 'e) outcome = Resolved 'a | Rejected "'e reason"

text \<open>How \<^verbatim>\<open>executeWithRetry\<close> rejects: with \<^verbatim>\<open>lastError\<close> (\<open>None\<close> is
  \<^verbatim>\<open>undefined\<close>, when the loop never ran), or with the \<^verbatim>\<open>TypeError\<close> raised inside
  the \<^verbatim>\<open>catch\<close> block.\<close>

datatype 'e retry_failure = LastError "'e reason option" | MessageTypeError

datatype retry_event = Call nat | Wait int

subsection \<open>executeWithRetry\<close>

definition backoff_delay :: "rat \<Rightarrow> nat \<Rightarrow> int" where
  "backoff_delay mult attempt = round (1000 * mult ^ (attempt - 1))"

text \<open>The \<^verbatim>\<open>for\<close> loop of lines 436--455 from attempt \<open>attempt\<close> on, with the
  \<^verbatim>\<open>lastError\<close> so far and the trace so far. \<^verbatim>\<open>maxAttempts\<close> is a JavaScript number,
  modelled as a rational; the loop runs while \<open>attempt \<le> maxAttempts\<close>.\<close>

function retry_loop ::
  "rat \<Rightarrow> (nat \<Rightarrow> ('a, 'e) outcome) \<Rightarrow> rat \<Rightarrow> nat \<Rightarrow> 'e reason option \<Rightarrow> retry_event list
     \<Rightarrow> ('e retry_failure + 'a) \<times> retry_event list" where
  "retry_loop mult op maxA attempt lastError tr =
     (if of_nat attempt \<le> maxA then
        (case op attempt of
           Resolved a \<Rightarrow> (Inr a, tr @ [Call attempt])
         | Rejected Nullish \<Rightarrow> (Inl MessageTypeError, tr @ [Call attempt])
         | Rejected (Reason e) \<Rightarrow>
             retry_loop mult op maxA (Suc attempt) (Some (Reason e))
               (tr @ [Call attempt] @
                (if of_nat attempt < maxA then [Wait (backoff_delay mult attempt)] else [])))
      else (Inl (LastError lastError), tr))"
  by pat_completeness auto
termination
proof (relation "measure (\<lambda>(mult, op, maxA, attempt, lastError, tr). nat (\<lfloor>maxA\<rfloor> + 1 - int attempt))")
  show "wf (measure (\<lambda>(mult, op, maxA, attempt, lastError, tr). nat (\<lfloor>maxA\<rfloor> + 1 - int attempt)))"
    by simp
next
  fix mult maxA :: rat and op :: "nat \<Rightarrow> ('a, 'e) outcome" and attempt :: nat
    and lastError :: "'e reason option" and tr :: "retry_event list" and x2 and e :: 'e
  assume "of_nat attempt \<le> maxA"
  then have "int attempt \<le> \<lfloor>maxA\<rfloor>" by (simp add: le_floor_iff)
  then show "((mult, op, maxA, Suc attempt, Some (Reason e),
      tr @ [Call attempt] @ (if of_nat attempt < maxA then [Wait (backoff_delay mult attempt)] else [])),
      mult, op, maxA, attempt, lastError, tr)
    \<in> measure (\<lambda>(mult, op, maxA, attempt, lastError, tr). nat (\<lfloor>maxA\<rfloor> + 1 - int attempt))"
    by simp
qed

declare retry_loop.simps [simp del]

text \<open>\<^verbatim>\<open>maxAttempts = this.retryAttempts\<close>: the default applies when the argument is
  \<^verbatim>\<open>undefined\<close> (\<open>None\<close>).\<close>

definition executeWithRetry ::
  "adaptive_state \<Rightarrow> (nat \<Rightarrow> ('a, 'e) outcome) \<Rightarrow> rat option
     \<Rightarrow> ('e retry_failure + 'a) \<times> retry_event list" where
  "executeWithRetry s op maxAttempts =
     retry_loop (retryBackoffMultiplier s) op
       (case maxAttempts of None \<Rightarrow> of_int (retryAttempts s) | Some m \<Rightarrow> m) 1 None []"

subsection \<open>executeWithTimeout\<close>

text \<open>\<^verbatim>\<open>Promise.race\<close> between \<^verbatim>\<open>operation()\<close> and a timer of \<^verbatim>\<open>getTimeout(name)\<close>
  milliseconds (lines 470--479). \<open>settle\<close> is the time after the call at which the
  operation's promise settles (\<open>None\<close>: never). The browser runs a timer with a \<open>NaN\<close>
  or negative delay after 0 ms. When both are due at the same millisecond the operation wins:
  it was started, and any timer it uses was scheduled, before the race's own timer. The timer
  rejects with \<^verbatim>\<open>Error(`${operationName} timeout after ${timeout}ms`)\<close>, modelled by the
  name and the timeout value.\<close>

datatype ('a, 'e) race_result = Settled "('a, 'e) outcome" | TimedOut string "int option"

definition timer_delay :: "int option \<Rightarrow> int" where
  "timer_delay t = (case t of Some d \<Rightarrow> max 0 d | None \<Rightarrow> 0)"

definition executeWithTimeout ::
  "adaptive_state \<Rightarrow> string \<Rightarrow> rat option \<Rightarrow> ('a, 'e) outcome \<Rightarrow> ('a, 'e) race_result" where
  "executeWithTimeout s name settle out =
     (let timeout = getTimeout s name
      in case settle of
           Some t \<Rightarrow> if t \<le> of_int (timer_delay timeout) then Settled out else TimedOut name timeout
         | None \<Rightarrow> TimedOut name timeout)"

subsection \<open>Specification helpers\<close>

text \<open>The trace of attempts \<open>j, \<dots>, j + k - 1\<close> that each fail and are followed by their
  back-off delay, and the attempt numbers a trace calls the operation with.\<close>

definition waits_trace :: "rat \<Rightarrow> nat \<Rightarrow> nat \<Rightarrow> retry_event list" where
  "waits_trace mult j k = concat (map (\<lambda>i. [Call i, Wait (backoff_delay mult i)]) [j..<j + k])"

fun call_numbers :: "retry_event list \<Rightarrow> nat list" where
  "call_numbers [] = []"
| "call_numbers (Call n # es) = n # call_numbers es"
| "call_numbers (Wait d # es) = call_numbers es"

fun wait_count :: "retry_event list \<Rightarrow> nat" where
  "wait_count [] = 0"
| "wait_count (Call n # es) = wait_count es"
| "wait_count (Wait d # es) = Suc (wait_count es)"

text \<open>The schedule of a loop with a whole number \<open>N\<close> of attempts from attempt \<open>j\<close>
  on: every attempt but the last followed by its delay. Every trace of the loop is a prefix
  of it (\<open>retry_loop_plan\<close>). \<open>wait_total\<close> is the time a trace spends waiting.\<close>

definition retry_plan :: "rat \<Rightarrow> nat \<Rightarrow> nat \<Rightarrow> retry_event list" where
  "retry_plan mult j N = waits_trace mult j (N - j) @ (if j \<le> N then [Call N] else [])"

fun wait_total :: "retry_event list \<Rightarrow> int" where
  "wait_total [] = 0"
| "wait_total (Call n # es) = wait_total es"
| "wait_total (Wait d # es) = d + wait_total es"

subsection \<open>Facts about the retry loop\<close>

lemma retry_loop_stop:
  "\<not> of_nat attempt \<le> maxA \<Longrightarrow>
     retry_loop mult op maxA attempt lastError tr = (Inl (LastError lastError), tr)"
  by (simp add: retry_loop.simps)

lemma retry_loop_resolved:
  "of_nat attempt \<le> maxA \<Longrightarrow> op attempt = Resolved a \<Longrightarrow>
     retry_loop mult op maxA attempt lastError tr = (Inr a, tr @ [Call attempt])"
  by (simp add: retry_loop.simps)

lemma retry_loop_nullish:
  "of_nat attempt \<le> maxA \<Longrightarrow> op attempt = Rejected Nullish \<Longrightarrow>
     retry_loop mult op maxA attempt lastError tr = (Inl MessageTypeError, tr @ [Call attempt])"
  by (simp add: retry_loop.simps)

lemma retry_loop_rejected:
  "of_nat attempt \<le> maxA \<Longrightarrow> op attempt = Rejected (Reason e) \<Longrightarrow>
     retry_loop mult op maxA attempt lastError tr =
       retry_loop mult op maxA (Suc attempt) (Some (Reason e))
         (tr @ [Call attempt] @
          (if of_nat attempt < maxA then [Wait (backoff_delay mult attempt)] else []))"
  by (simp add: retry_loop.simps)

lemma backoff_delay_three_halves:
  "backoff_delay (3 / 2) (Suc k) = (2000 * 3 ^ k + 2 ^ k) div (2 * 2 ^ k)"
proof -
  have "(1000 * (3 / 2) ^ k :: rat) = of_int (1000 * 3 ^ k) / of_int (2 ^ k)"
    by (simp add: power_divide)
  then have "backoff_delay (3 / 2) (Suc k) = round (of_int (1000 * 3 ^ k) / of_int (2 ^ k) :: rat)"
    by (simp add: backoff_delay_def)
  also have "\<dots> = (2 * (1000 * 3 ^ k) + 2 ^ k) div (2 * 2 ^ k)"
    by (rule round_quotient) simp
  finally show ?thesis by simp
qed

lemma waits_trace_Suc:
  "waits_trace mult j (Suc k) = [Call j, Wait (backoff_delay mult j)] @ waits_trace mult (Suc j) k"
proof -
  have "[j..<j + Suc k] = j # [Suc j..<Suc j + k]" by (simp add: upt_rec del: upt_Suc)
  then show ?thesis by (simp add: waits_trace_def del: upt_Suc)
qed

lemma call_numbers_append [simp]: "call_numbers (xs @ ys) = call_numbers xs @ call_numbers ys"
  by (induction xs rule: call_numbers.induct) simp_all

lemma wait_count_append [simp]: "wait_count (xs @ ys) = wait_count xs + wait_count ys"
  by (induction xs rule: wait_count.induct) simp_all

lemma retry_loop_failures:
  assumes "\<forall>i. j \<le> i \<and> i < j + k \<longrightarrow> op i = Rejected (Reason (errs i))"
    and "of_nat (j + k) \<le> maxA"
  shows "\<exists>last'. retry_loop mult op maxA j lastError tr =
           retry_loop mult op maxA (j + k) last' (tr @ waits_trace mult j k)"
  using assms
proof (induction k arbitrary: j lastError tr)
  case 0
  then show ?case by (auto simp: waits_trace_def)
next
  case (Suc k)
  have lt: "of_nat j < maxA" using Suc.prems(2) by (simp add: less_le_trans)
  then have "retry_loop mult op maxA j lastError tr =
      retry_loop mult op maxA (Suc j) (Some (Reason (errs j)))
        (tr @ [Call j, Wait (backoff_delay mult j)])"
    using Suc.prems(1) by (simp add: retry_loop_rejected)
  moreover have "\<exists>last'. retry_loop mult op maxA (Suc j) (Some (Reason (errs j)))
        (tr @ [Call j, Wait (backoff_delay mult j)]) =
      retry_loop mult op maxA (Suc j + k) last'
        ((tr @ [Call j, Wait (backoff_delay mult j)]) @ waits_trace mult (Suc j) k)"
    using Suc.prems by (intro Suc.IH) auto
  ultimately show ?case by (simp add: waits_trace_Suc)
qed

lemma retry_loop_calls:
  "\<exists>n. call_numbers (snd (retry_loop mult op maxA attempt lastError tr)) =
         call_numbers tr @ [attempt..<attempt + n] \<and> int (attempt + n) \<le> max (int attempt) (\<lfloor>maxA\<rfloor> + 1)"
proof (induction mult op maxA attempt lastError tr rule: retry_loop.induct)
  case (1 mult op maxA attempt lastError tr)
  show ?case
  proof (cases "of_nat attempt \<le> maxA")
    case False
    then show ?thesis by (auto simp: retry_loop_stop intro: exI [of _ 0])
  next
    case True
    then have le: "int attempt \<le> \<lfloor>maxA\<rfloor>" by (simp add: le_floor_iff)
    show ?thesis
    proof (cases "op attempt")
      case (Resolved a)
      with True le show ?thesis by (auto simp: retry_loop_resolved intro: exI [of _ 1])
    next
      case (Rejected r)
      show ?thesis
      proof (cases r)
        case Nullish
        with Rejected True le show ?thesis by (auto simp: retry_loop_nullish intro: exI [of _ 1])
      next
        case (Reason e)
        let ?tr' = "tr @ [Call attempt] @
          (if of_nat attempt < maxA then [Wait (backoff_delay mult attempt)] else [])"
        obtain n where n: "call_numbers (snd (retry_loop mult op maxA (Suc attempt) (Some (Reason e)) ?tr')) =
            call_numbers ?tr' @ [Suc attempt..<Suc attempt + n]"
          and b: "int (Suc attempt + n) \<le> max (int (Suc attempt)) (\<lfloor>maxA\<rfloor> + 1)"
          using "1.IH" [OF True Rejected Reason] by blast
        have "call_numbers ?tr' = call_numbers tr @ [attempt]" by simp
        then have "call_numbers (snd (retry_loop mult op maxA attempt lastError tr)) =
            call_numbers tr @ [attempt..<attempt + Suc n]"
          using n Rejected Reason True by (simp add: retry_loop_rejected upt_conv_Cons)
        moreover have "int (attempt + Suc n) \<le> max (int attempt) (\<lfloor>maxA\<rfloor> + 1)"
          using b le by simp
        ultimately show ?thesis by blast
      qed
    qed
  qed
qed

lemma retry_plan_step:
  "j < N \<Longrightarrow> retry_plan mult j N = [Call j, Wait (backoff_delay mult j)] @ retry_plan mult (Suc j) N"
proof -
  assume "j < N"
  then obtain k where "N - j = Suc k" and "N - Suc j = k" by (cases "N - j") auto
  with \<open>j < N\<close> show ?thesis by (simp add: retry_plan_def waits_trace_Suc)
qed

lemma retry_plan_last: "retry_plan mult N N = [Call N]"
  by (simp add: retry_plan_def waits_trace_def)

lemma retry_loop_plan:
  "maxA = of_nat N \<Longrightarrow>
   \<exists>n. snd (retry_loop mult op maxA attempt lastError tr) = tr @ take n (retry_plan mult attempt N)"
proof (induction mult op maxA attempt lastError tr rule: retry_loop.induct)
  case (1 mult op maxA attempt lastError tr)
  show ?case
  proof (cases "attempt \<le> N")
    case False
    then show ?thesis using "1.prems" by (auto simp: retry_loop_stop intro: exI [of _ 0])
  next
    case True
    then have le: "of_nat attempt \<le> maxA" using "1.prems" by simp
    have hd: "take 1 (retry_plan mult attempt N) = [Call attempt]"
      using True by (cases "attempt = N") (simp_all add: retry_plan_last retry_plan_step)
    show ?thesis
    proof (cases "op attempt")
      case (Resolved a)
      then show ?thesis using le hd by (auto simp: retry_loop_resolved intro: exI [of _ 1])
    next
      case (Rejected r)
      show ?thesis
      proof (cases r)
        case Nullish
        then show ?thesis using Rejected le hd by (auto simp: retry_loop_nullish intro: exI [of _ 1])
      next
        case (Reason e)
        let ?tr' = "tr @ [Call attempt] @
          (if of_nat attempt < maxA then [Wait (backoff_delay mult attempt)] else [])"
        obtain n where n: "snd (retry_loop mult op maxA (Suc attempt) (Some (Reason e)) ?tr') =
            ?tr' @ take n (retry_plan mult (Suc attempt) N)"
          using "1.IH" [OF le Rejected Reason "1.prems"] by blast
        have eq: "retry_loop mult op maxA attempt lastError tr =
            retry_loop mult op maxA (Suc attempt) (Some (Reason e)) ?tr'"
          using le Rejected Reason by (simp add: retry_loop_rejected)
        show ?thesis
        proof (cases "attempt < N")
          case True
          then have "snd (retry_loop mult op maxA attempt lastError tr) =
              tr @ take (2 + n) (retry_plan mult attempt N)"
            using eq n "1.prems" by (simp add: retry_plan_step)
          then show ?thesis by blast
        next
          case False
          with \<open>attempt \<le> N\<close> have "attempt = N" by simp
          then have "snd (retry_loop mult op maxA attempt lastError tr) = tr @ [Call attempt]"
            using eq "1.prems" by (simp add: retry_loop_stop)
          then show ?thesis using hd by (auto intro: exI [of _ 1])
        qed
      qed
    qed
  qed
qed

lemma wait_total_append [simp]: "wait_total (xs @ ys) = wait_total xs + wait_total ys"
  by (induction xs rule: wait_total.induct) simp_all

lemma backoff_delay_nonneg: "0 \<le> mult \<Longrightarrow> 0 \<le> backoff_delay mult k"
  by (simp add: backoff_delay_def round_def)

lemma wait_total_nonneg: "\<forall>d. Wait d \<in> set xs \<longrightarrow> 0 \<le> d \<Longrightarrow> 0 \<le> wait_total xs"
  by (induction xs rule: wait_total.induct) auto

lemma wait_total_take:
  assumes "\<forall>d. Wait d \<in> set xs \<longrightarrow> 0 \<le> d"
  shows "wait_total (take n xs) \<le> wait_total xs"
  using assms
proof (induction xs arbitrary: n rule: wait_total.induct)
  case (3 d es)
  then show ?case using wait_total_nonneg [of es] by (cases n) auto
next
  case (2 c es)
  then show ?case using wait_total_nonneg [of es] by (cases n) auto
qed simp

lemma retry_plan_waits_nonneg:
  "0 \<le> mult \<Longrightarrow> Wait d \<in> set (retry_plan mult j N) \<Longrightarrow> 0 \<le> d"
  by (auto simp: retry_plan_def waits_trace_def backoff_delay_nonneg)

subsection \<open>Properties of the retry and timeout helpers\<close>

text \<open>Claim C18. An operation that fails \<open>k\<close> times and then succeeds, with at least
  \<open>k + 1\<close> attempts allowed, makes \<^verbatim>\<open>executeWithRetry\<close> resolve with its value after
  exactly \<open>k + 1\<close> calls, each failed call followed by its back-off delay.\<close>

theorem retry_succeeds_after_failures:
  assumes "\<forall>i. 1 \<le> i \<and> i \<le> k \<longrightarrow> op i = Rejected (Reason (errs i))"
    and "op (Suc k) = Resolved a" and "of_nat (Suc k) \<le> maxA"
  shows "executeWithRetry s op (Some maxA) =
           (Inr a, waits_trace (retryBackoffMultiplier s) 1 k @ [Call (Suc k)])"
proof -
  let ?m = "retryBackoffMultiplier s"
  obtain last' where "retry_loop ?m op maxA 1 None [] =
      retry_loop ?m op maxA (1 + k) last' ([] @ waits_trace ?m 1 k)"
    using retry_loop_failures [of 1 k op errs maxA ?m None "[]"] assms(1,3) by auto
  then show ?thesis using assms(2,3) by (simp add: executeWithRetry_def retry_loop_resolved)
qed

theorem retry_succeeds_after_failures_witness:
  "executeWithRetry fresh_adaptive_state
     (\<lambda>i. if i \<le> 2 then Rejected (Reason ''network'') else Resolved (42::nat)) (Some 3) =
   (Inr 42, [Call 1, Wait 1000, Call 2, Wait 1500, Call 3])"
proof -
  have h1: "\<forall>i. 1 \<le> i \<and> i \<le> 2 \<longrightarrow>
      (\<lambda>i. if i \<le> 2 then Rejected (Reason ''network'') else Resolved (42::nat)) i =
      Rejected (Reason ((\<lambda>_. ''network'') i))" by simp
  have h2: "(\<lambda>i. if i \<le> 2 then Rejected (Reason ''network'') else Resolved (42::nat)) (Suc 2) =
      Resolved 42" by simp
  have h3: "of_nat (Suc 2) \<le> (3::rat)" by simp
  show ?thesis
    using retry_succeeds_after_failures [OF h1 h2 h3, of fresh_adaptive_state]
    by (simp add: fresh_adaptive_state_def waits_trace_def backoff_delay_three_halves [of 0, simplified]
        backoff_delay_three_halves [of 1, simplified])
qed

text \<open>Claim C19. An operation that always fails, with \<open>N \<ge> 1\<close> attempts allowed, makes
  \<^verbatim>\<open>executeWithRetry\<close> reject with the error of the \<open>N\<close>-th call after exactly \<open>N\<close>
  calls and \<open>N - 1\<close> back-off delays.\<close>

theorem retry_exhausts_attempts:
  assumes "\<forall>i. 1 \<le> i \<and> i \<le> N \<longrightarrow> op i = Rejected (Reason (errs i))" and "1 \<le> N"
  shows "executeWithRetry s op (Some (of_nat N)) =
           (Inl (LastError (Some (Reason (errs N)))),
            waits_trace (retryBackoffMultiplier s) 1 (N - 1) @ [Call N])"
proof -
  let ?m = "retryBackoffMultiplier s"
  obtain last' where eq: "retry_loop ?m op (of_nat N) 1 None [] =
      retry_loop ?m op (of_nat N) (1 + (N - 1)) last' ([] @ waits_trace ?m 1 (N - 1))"
    using retry_loop_failures [of 1 "N - 1" op errs "of_nat N" ?m None "[]"] assms by auto
  have "1 + (N - 1) = N" using assms(2) by simp
  with eq have eq': "retry_loop ?m op (of_nat N) 1 None [] =
      retry_loop ?m op (of_nat N) N last' (waits_trace ?m 1 (N - 1))" by simp
  have "op N = Rejected (Reason (errs N))" using assms by simp
  then show ?thesis
    using eq' by (simp add: executeWithRetry_def retry_loop_rejected retry_loop_stop)
qed

theorem retry_exhausts_attempts_witness:
  "executeWithRetry fresh_adaptive_state
     (\<lambda>i. Rejected (Reason i) :: (nat, nat) outcome) (Some (of_nat 3)) =
   (Inl (LastError (Some (Reason 3))), [Call 1, Wait 1000, Call 2, Wait 1500, Call 3])"
proof -
  have h1: "\<forall>i. 1 \<le> i \<and> i \<le> (3::nat) \<longrightarrow>
      (\<lambda>i. Rejected (Reason i) :: (nat, nat) outcome) i = Rejected (Reason (id i))" by simp
  have h2: "1 \<le> (3::nat)" by simp
  show ?thesis
    using retry_exhausts_attempts [OF h1 h2, of fresh_adaptive_state]
    by (simp add: fresh_adaptive_state_def waits_trace_def backoff_delay_three_halves [of 0, simplified]
        backoff_delay_three_halves [of 1, simplified])
qed

text \<open>Claim C20. Whatever the operation does, \<^verbatim>\<open>executeWithRetry\<close> returns, and it calls
  the operation with the attempt numbers \<open>1, 2, \<dots>, n\<close> in order, for some \<open>n\<close> no larger
  than \<^verbatim>\<open>maxAttempts\<close> (rounded down, and 0 when it is below 1).\<close>

theorem retry_calls_bounded:
  "\<exists>n. call_numbers (snd (executeWithRetry s op (Some maxA))) = [1..<Suc n] \<and>
       int n \<le> max 0 \<lfloor>maxA\<rfloor>"
proof -
  obtain n where "call_numbers (snd (retry_loop (retryBackoffMultiplier s) op maxA 1 None [])) =
      [1..<1 + n]" and "int (1 + n) \<le> max 1 (\<lfloor>maxA\<rfloor> + 1)"
    using retry_loop_calls [of "retryBackoffMultiplier s" op maxA 1 None "[]"] by auto
  then show ?thesis by (auto simp: executeWithRetry_def)
qed

text \<open>Claim C21. An operation that rejects with \<^verbatim>\<open>null\<close> or \<^verbatim>\<open>undefined\<close> is not
  retried: reading \<^verbatim>\<open>error.message\<close> inside the \<^verbatim>\<open>catch\<close> block throws a
  \<^verbatim>\<open>TypeError\<close>, which leaves the loop after the first call.\<close>

theorem retry_nullish_rejection_not_retried:
  assumes "1 \<le> maxA" and "op 1 = Rejected Nullish"
  shows "executeWithRetry s op (Some maxA) = (Inl MessageTypeError, [Call 1])"
  using assms by (simp add: executeWithRetry_def retry_loop_nullish)

theorem retry_nullish_rejection_not_retried_witness:
  "1 \<le> (3::rat) \<and> executeWithRetry fresh_adaptive_state
     (\<lambda>i. if i = 1 then Rejected Nullish else Resolved (42::nat) :: (nat, string) outcome) (Some 3) =
   (Inl MessageTypeError, [Call 1])"
proof -
  have h1: "1 \<le> (3::rat)" by simp
  have h2: "(\<lambda>i. if i = 1 then Rejected Nullish else Resolved (42::nat) :: (nat, string) outcome) 1 =
      Rejected Nullish" by simp
  show ?thesis
    using retry_nullish_rejection_not_retried
      [of 3 "\<lambda>i. if i = 1 then Rejected Nullish else Resolved (42::nat) :: (nat, string) outcome"
        fresh_adaptive_state, OF h1 h2] h1 by blast
qed

text \<open>Claim C22. With fewer than one attempt allowed, \<^verbatim>\<open>executeWithRetry\<close> never calls
  the operation and rejects with \<^verbatim>\<open>undefined\<close>.\<close>

theorem retry_without_attempts:
  assumes "maxA < 1"
  shows "executeWithRetry s op (Some maxA) = (Inl (LastError None), [])"
  using assms by (simp add: executeWithRetry_def retry_loop_stop)

theorem retry_without_attempts_witness:
  "(0::rat) < 1 \<and>
   executeWithRetry fresh_adaptive_state (\<lambda>i. Resolved (42::nat) :: (nat, string) outcome) (Some 0) =
   (Inl (LastError None), [])"
proof -
  have h: "(0::rat) < 1" by simp
  show ?thesis using retry_without_attempts [OF h] h by blast
qed

text \<open>Claim C23. With the constructor's multiplier of 1.5 the back-off delays grow strictly:
  1000, 1500, 2250, 3375, 5063, \<dots> milliseconds.\<close>

theorem backoff_delays_increasing:
  assumes "0 < k"
  shows "backoff_delay (3 / 2) k < backoff_delay (3 / 2) (Suc k)"
proof -
  obtain j where k: "k = Suc j" using assms by (cases k) auto
  let ?x = "1000 * (3 / 2 :: rat) ^ j"
  have "(1::rat) \<le> (3 / 2) ^ j" by (rule one_le_power) simp
  then have "1 \<le> 500 * (3 / 2 :: rat) ^ j" by linarith
  then have "?x + 1 \<le> 1000 * (3 / 2) ^ Suc j" by simp
  then have "round (?x + 1) \<le> round (1000 * (3 / 2 :: rat) ^ Suc j)" by (rule round_mono)
  moreover have "round (?x + 1) = round ?x + 1"
    using floor_add_int [of "?x + 1 / 2" 1] by (simp add: round_def ac_simps)
  ultimately show ?thesis using k by (simp add: backoff_delay_def)
qed

theorem backoff_delays_increasing_witness:
  "0 < (4::nat) \<and> backoff_delay (3 / 2) 4 = 3375 \<and> backoff_delay (3 / 2) 5 = 5063 \<and>
   backoff_delay (3 / 2) 4 < backoff_delay (3 / 2) (Suc 4)"
proof -
  have h: "0 < (4::nat)" by simp
  have "backoff_delay (3 / 2) 4 = 3375"
    using backoff_delay_three_halves [of 3] by (simp add: numeral_eq_Suc)
  moreover have "backoff_delay (3 / 2) 5 = 5063"
    using backoff_delay_three_halves [of 4] by (simp add: numeral_eq_Suc)
  ultimately show ?thesis using backoff_delays_increasing [OF h] h by simp
qed

text \<open>Claim C24. For an operation name with a numeric timeout, \<^verbatim>\<open>executeWithTimeout\<close>
  resolves or rejects as the operation does when it settles within \<^verbatim>\<open>getTimeout(name)\<close>
  milliseconds, and rejects with the timeout error otherwise (also when it never settles).\<close>

theorem executeWithTimeout_settles_in_time:
  assumes "baseTimeouts s = default_baseTimeouts" and "getTimeout s name = Some d"
  shows "executeWithTimeout s name settle out =
           (if \<exists>t. settle = Some t \<and> t \<le> of_int d then Settled out else TimedOut name (Some d))"
proof -
  have "0 \<le> d" using assms by (rule getTimeout_nonneg)
  then show ?thesis
    using assms(2) by (cases settle) (auto simp: executeWithTimeout_def timer_delay_def)
qed

theorem executeWithTimeout_settles_in_time_witness:
  "baseTimeouts fresh_adaptive_state = default_baseTimeouts \<and>
   getTimeout fresh_adaptive_state ''userFetch'' = Some 8000 \<and>
   executeWithTimeout fresh_adaptive_state ''userFetch'' (Some 7999) (Resolved (1::nat) :: (nat, string) outcome) =
     Settled (Resolved 1) \<and>
   executeWithTimeout fresh_adaptive_state ''userFetch'' (Some 8001) (Resolved (1::nat) :: (nat, string) outcome) =
     TimedOut ''userFetch'' (Some 8000)"
proof -
  have h1: "baseTimeouts fresh_adaptive_state = default_baseTimeouts"
    by (simp add: fresh_adaptive_state_def)
  have h2: "getTimeout fresh_adaptive_state ''userFetch'' = Some 8000"
    by (simp add: getTimeout_def base_timeout_def fresh_adaptive_state_def default_baseTimeouts_def)
  show ?thesis
    using executeWithTimeout_settles_in_time [OF h1 h2, of "Some 7999" "Resolved (1::nat) :: (nat, string) outcome"]
      executeWithTimeout_settles_in_time [OF h1 h2, of "Some 8001" "Resolved (1::nat) :: (nat, string) outcome"]
      h1 h2 by simp
qed

text \<open>Claim C25. For an operation name that is a key of \<^verbatim>\<open>Object.prototype\<close> and not of
  the table, the race's timer gets a \<open>NaN\<close> delay and fires at once: every operation that
  takes any time at all is rejected with \<^verbatim>\<open>timeout after NaNms\<close>.\<close>

theorem executeWithTimeout_prototype_name:
  assumes "name \<in> set object_prototype_keys" and "map_of (baseTimeouts s) name = None"
    and "0 < t"
  shows "executeWithTimeout s name (Some t) out = TimedOut name None"
  using assms
  by (simp add: executeWithTimeout_def getTimeout_def base_timeout_def timer_delay_def)

theorem executeWithTimeout_prototype_name_witness:
  "''constructor'' \<in> set object_prototype_keys \<and>
   map_of (baseTimeouts fresh_adaptive_state) ''constructor'' = None \<and> (0::rat) < 1 \<and>
   executeWithTimeout fresh_adaptive_state ''constructor'' (Some 1)
     (Resolved (1::nat) :: (nat, string) outcome) = TimedOut ''constructor'' None"
proof -
  have h1: "''constructor'' \<in> set object_prototype_keys" by (simp add: object_prototype_keys_def)
  have h2: "map_of (baseTimeouts fresh_adaptive_state) ''constructor'' = None"
    by (simp add: fresh_adaptive_state_def default_baseTimeouts_def)
  have h3: "(0::rat) < 1" by simp
  show ?thesis using executeWithTimeout_prototype_name [OF h1 h2 h3] h1 h2 h3 by blast
qed

text \<open>Claim C30. With the constructor's settings (three attempts, multiplier 1.5), a call
  of \<^verbatim>\<open>executeWithRetry\<close> without \<^verbatim>\<open>maxAttempts\<close> spends at most 2500 ms in
  back-off waits, whatever the operation does: 1000 ms after the first failure and 1500 ms
  after the second, and none after the last attempt.\<close>

theorem retry_total_backoff_bounded:
  assumes "ap_inv s"
  shows "wait_total (snd (executeWithRetry s op None)) \<le> 2500"
proof -
  have m: "retryBackoffMultiplier s = 3 / 2" and r: "retryAttempts s = 3"
    using assms by (simp_all add: ap_inv_def)
  obtain n where "snd (retry_loop (3 / 2) op 3 1 None []) = [] @ take n (retry_plan (3 / 2) 1 3)"
    using retry_loop_plan [of 3 3 "3 / 2" op 1 None "[]"] by auto
  moreover have "wait_total (take n (retry_plan (3 / 2) 1 3)) \<le> wait_total (retry_plan (3 / 2) 1 3)"
    using retry_plan_waits_nonneg [of "3 / 2" _ 1 3] by (intro wait_total_take) auto
  moreover have "wait_total (retry_plan (3 / 2) 1 3) = 2500"
    by (simp add: retry_plan_def waits_trace_def numeral_eq_Suc backoff_delay_three_halves)
  moreover have "snd (executeWithRetry s op None) = snd (retry_loop (3 / 2) op 3 1 None [])"
    by (simp add: executeWithRetry_def m r)
  ultimately show ?thesis by simp
qed

theorem retry_total_backoff_bounded_witness:
  "ap_inv fresh_adaptive_state \<and>
   snd (executeWithRetry fresh_adaptive_state (\<lambda>i. Rejected (Reason i) :: (nat, nat) outcome) None) =
     [Call 1, Wait 1000, Call 2, Wait 1500, Call 3] \<and>
   wait_total (snd (executeWithRetry fresh_adaptive_state
     (\<lambda>i. Rejected (Reason i) :: (nat, nat) outcome) None)) \<le> 2500"
proof -
  have h: "ap_inv fresh_adaptive_state" by (simp add: ap_inv_def fresh_adaptive_state_def)
  have "snd (executeWithRetry fresh_adaptive_state (\<lambda>i. Rejected (Reason i) :: (nat, nat) outcome) None) =
      [Call 1, Wait 1000, Call 2, Wait 1500, Call 3]"
    by (simp add: executeWithRetry_def fresh_adaptive_state_def retry_loop_rejected retry_loop_stop
        numeral_eq_Suc backoff_delay_three_halves)
  then show ?thesis
    using retry_total_backoff_bounded [OF h, of "\<lambda>i. Rejected (Reason i) :: (nat, nat) outcome"] h
    by simp
qed

text \<open>Claim C31. With a fractional \<^verbatim>\<open>maxAttempts\<close> between \<open>N\<close> and \<open>N + 1\<close>, an
  operation that always fails is called \<open>N\<close> times and the loop waits once more after the
  last call before it rejects, since \<open>attempt < maxAttempts\<close> still holds there.\<close>

theorem retry_fractional_attempts_trailing_wait:
  assumes "\<forall>i. 1 \<le> i \<and> i \<le> N \<longrightarrow> op i = Rejected (Reason (errs i))" and "1 \<le> N"
    and "of_nat N < maxA" and "maxA < of_nat (Suc N)"
  shows "executeWithRetry s op (Some maxA) =
           (Inl (LastError (Some (Reason (errs N)))), waits_trace (retryBackoffMultiplier s) 1 N)"
proof -
  let ?m = "retryBackoffMultiplier s"
  obtain last' where eq: "retry_loop ?m op maxA 1 None [] =
      retry_loop ?m op maxA (1 + (N - 1)) last' ([] @ waits_trace ?m 1 (N - 1))"
    using retry_loop_failures [of 1 "N - 1" op errs maxA ?m None "[]"] assms(1,2,3) by auto
  have "1 + (N - 1) = N" using assms(2) by simp
  with eq have eq': "retry_loop ?m op maxA 1 None [] =
      retry_loop ?m op maxA N last' (waits_trace ?m 1 (N - 1))" by simp
  have "waits_trace ?m 1 (N - 1) @ [Call N, Wait (backoff_delay ?m N)] = waits_trace ?m 1 N"
    using assms(2) by (cases N) (simp_all add: waits_trace_def)
  moreover have "op N = Rejected (Reason (errs N))" using assms by simp
  ultimately show ?thesis
    using eq' assms(3,4) by (simp add: executeWithRetry_def retry_loop_rejected retry_loop_stop)
qed

theorem retry_fractional_attempts_trailing_wait_witness:
  "executeWithRetry fresh_adaptive_state
     (\<lambda>i. Rejected (Reason i) :: (nat, nat) outcome) (Some (5 / 2)) =
   (Inl (LastError (Some (Reason 2))), [Call 1, Wait 1000, Call 2, Wait 1500])"
proof -
  have h1: "\<forall>i. 1 \<le> i \<and> i \<le> (2::nat) \<longrightarrow>
      (\<lambda>i. Rejected (Reason i) :: (nat, nat) outcome) i = Rejected (Reason (id i))" by simp
  have h2: "1 \<le> (2::nat)" by simp
  have h3: "of_nat 2 < (5 / 2 :: rat)" by simp
  have h4: "(5 / 2 :: rat) < of_nat (Suc 2)" by simp
  show ?thesis
    using retry_fractional_attempts_trailing_wait [OF h1 h2 h3 h4, of fresh_adaptive_state]
    by (simp add: fresh_adaptive_state_def waits_trace_def backoff_delay_three_halves [of 0, simplified]
        backoff_delay_three_halves [of 1, simplified])
qed

end
