(* ===== verification/Page.thy ===== *)
theory Page
  imports Console Adaptive Retry Firebase
begin

text \<open>
  The page that loads the three scripts. Its state is the record \<open>page\<close>: the page
  console (with the console manager once loaded), the performance system once constructed,
  and the outcome of the Firebase bootstrap once it has run. \<open>page_reach\<close> is the
  inductive set of states the page reaches when the scripts load in any order and, after
  they load, other page scripts and the browser call into them in any interleaving. The
  performance system's console calls with a fixed first argument (lines 226--337, 356, 509
  and 522 of \<^verbatim>\<open>src/website-main/htdocs/js/console-manager.js\<close>) are listed by
  \<open>init_lines\<close>, \<open>memory_lines\<close> and \<open>adaptive_event_lines\<close>, the progress
  lines of \<^verbatim>\<open>executeWithRetry\<close> (lines 437--458) by \<open>retry_output\<close>, and they go
  through the console like every other call.
\<close>

subsection \<open>The performance system's console calls\<close>

definition ap_tag :: "string \<Rightarrow> msg" where
  "ap_tag s = ''[AdaptivePerformance] '' @ s"

fun console_call :: "page_console \<Rightarrow> channel \<times> msg \<Rightarrow> page_console" where
  "console_call P (CLog, m) = console_log P m"
| "console_call P (CWarn, m) = console_warn P m"
| "console_call P (CError, m) = console_error P m"
| "console_call P (CInfo, m) = console_info P m"

definition console_calls :: "page_console \<Rightarrow> (channel \<times> msg) list \<Rightarrow> page_console" where
  "console_calls P cs = fold (\<lambda>c P. console_call P c) cs P"

text \<open>\<^verbatim>\<open>detectNetworkSpeed\<close> logs the connection info when there is a connection
  (line 259) and warns in its \<^verbatim>\<open>catch\<close> (line 286); \<^verbatim>\<open>detectDeviceCapability\<close>
  logs the device info (line 301) or warns (line 312).\<close>

definition network_lines :: "browser_env \<Rightarrow> (channel \<times> msg) list" where
  "network_lines env =
     (if networkProbeThrows env then [(CWarn, ap_tag ''Network detection failed:'')]
      else if connection env \<noteq> None then [(CLog, ap_tag ''Connection info:'')]
      else [])"

definition device_lines :: "browser_env \<Rightarrow> (channel \<times> msg) list" where
  "device_lines env =
     (if deviceProbeThrows env then [(CWarn, ap_tag ''Device detection failed:'')]
      else [(CLog, ap_tag ''Device info:'')])"

text \<open>\<^verbatim>\<open>init()\<close> (lines 225--244) with the monitoring set-up's log (line 337).\<close>

definition init_lines :: "browser_env \<Rightarrow> (channel \<times> msg) list" where
  "init_lines env =
     [(CLog, ap_tag ''Initializing...'')] @ network_lines env @ device_lines env @
     (if hasPerformanceObserver env then [(CLog, ap_tag ''Resource monitoring enabled'')] else []) @
     [(CLog, ap_tag ''Initialized:'')]"

text \<open>One firing of the memory timer (lines 352--361): the warning above 90\%, the device
  detection's lines when it re-runs.\<close>

definition memory_lines ::
  "browser_env \<Rightarrow> rat \<Rightarrow> rat \<Rightarrow> adaptive_state \<Rightarrow> (channel \<times> msg) list" where
  "memory_lines env used limit s =
     (let high = (if limit = 0 then used > 0 else used / limit > 9 / 10);
          low = (limit \<noteq> 0 \<and> used / limit < 1 / 2)
      in if high then [(CWarn, ap_tag ''High memory usage detected:'')]
         else if low \<and> deviceCapability s = Low then device_lines env
         else [])"

fun adaptive_event_lines :: "adaptive_state \<Rightarrow> adaptive_event \<Rightarrow> (channel \<times> msg) list" where
  "adaptive_event_lines s (ResourceEntries es now) = []"
| "adaptive_event_lines s (MemoryCheck env used limit) =
     (if 0 < memoryTimers s then memory_lines env used limit s else [])"
| "adaptive_event_lines s (ResetSystem env) =
     (CLog, ap_tag ''Resetting system...'') # init_lines env"

text \<open>Template literals print whole numbers in decimal (\<^verbatim>\<open>${attempt}\<close>,
  \<^verbatim>\<open>${backoffDelay}\<close>).\<close>

definition digit_char :: "nat \<Rightarrow> char" where
  "digit_char d = ''0123456789'' ! d"

fun string_of_nat :: "nat \<Rightarrow> string" where
  "string_of_nat n =
     (if n < 10 then [digit_char n] else string_of_nat (n div 10) @ [digit_char (n mod 10)])"

declare string_of_nat.simps [simp del]

definition string_of_int :: "int \<Rightarrow> string" where
  "string_of_int i = (if i < 0 then ''-'' @ string_of_nat (nat (- i)) else string_of_nat (nat i))"

text \<open>The console calls of \<^verbatim>\<open>executeWithRetry\<close> (lines 437--458), read off the loop's
  trace: each attempt logs that it executes, then that it succeeded or (line 444) warns that
  it failed; a wait is announced before it starts. A nullish rejection prints no warning:
  \<^verbatim>\<open>error.message\<close> throws while the warning's arguments are evaluated. \<open>mx\<close> is
  \<^verbatim>\<open>maxAttempts\<close> as the template prints it.\<close>

fun retry_trace_lines ::
  "string \<Rightarrow> string \<Rightarrow> (nat \<Rightarrow> ('a, 'e) outcome) \<Rightarrow> retry_event list \<Rightarrow> (channel \<times> msg) list" where
  "retry_trace_lines name mx op [] = []"
| "retry_trace_lines name mx op (Call i # es) =
     (CLog, ap_tag (''Executing '' @ name @ '' (attempt '' @ string_of_nat i @ ''/'' @ mx @ '')'')) #
     (case op i of
        Resolved a \<Rightarrow> [(CLog, ap_tag (name @ '' succeeded on attempt '' @ string_of_nat i))]
      | Rejected Nullish \<Rightarrow> []
      | Rejected (Reason e) \<Rightarrow> [(CWarn, ap_tag (name @ '' failed on attempt '' @ string_of_nat i @ '':''))]) @
     retry_trace_lines name mx op es"
| "retry_trace_lines name mx op (Wait d # es) =
     (CLog, ap_tag (''Retrying '' @ name @ '' in '' @ string_of_int d @ ''ms...'')) #
     retry_trace_lines name mx op es"

text \<open>A call \<^verbatim>\<open>executeWithRetry(operation, name, maxAttempts)\<close> with a whole number of
  attempts or the default: the loop's lines, then the final error of line 458 when the
  attempts run out (not when the \<^verbatim>\<open>TypeError\<close> of a nullish rejection escapes).\<close>

definition retry_output ::
  "string \<Rightarrow> (nat \<Rightarrow> ('a, 'e) outcome) \<Rightarrow> nat option \<Rightarrow> adaptive_state \<Rightarrow> (channel \<times> msg) list" where
  "retry_output name op maxN A =
     (let res = executeWithRetry A op (map_option of_nat maxN);
          mx = string_of_nat (case maxN of None \<Rightarrow> nat (retryAttempts A) | Some n \<Rightarrow> n)
      in retry_trace_lines name mx op (snd res) @
         (case fst res of
            Inl (LastError e) \<Rightarrow> [(CError, ap_tag (name @ '' failed after '' @ mx @ '' attempts''))]
          | _ \<Rightarrow> []))"

subsection \<open>The page\<close>

record ('app, 'an, 'au, 'db, 'e) page =
  pg_console :: page_console
  pg_cm_loaded :: bool
  pg_perf :: "adaptive_state option"
  pg_firebase :: "('e + ('app, 'an, 'au, 'db) firebase_globals) option"

text \<open>Before any script runs, the console is the browser's: no wrapper is installed. The
  manager field is not observable until the console manager loads, which replaces it.\<close>

definition native_console :: page_console where
  "native_console = \<lparr>manager = new_ConsoleManager, overridden = False, printed = []\<rparr>"

definition page_start :: "('app, 'an, 'au, 'db, 'e) page" where
  "page_start = \<lparr>pg_console = native_console, pg_cm_loaded = False, pg_perf = None,
                 pg_firebase = None\<rparr>"

text \<open>Loading \<^verbatim>\<open>console-manager.js\<close>'s first part: \<^verbatim>\<open>new ConsoleManager()\<close> (line 178)
  installs the wrappers.\<close>

definition load_console_manager ::
  "('app, 'an, 'au, 'db, 'e) page \<Rightarrow> ('app, 'an, 'au, 'db, 'e) page" where
  "load_console_manager S =
     S\<lparr>pg_console := (pg_console S)\<lparr>manager := new_ConsoleManager, overridden := True\<rparr>,
       pg_cm_loaded := True\<rparr>"

text \<open>Loading the performance system: the constructor with \<^verbatim>\<open>init()\<close>'s lines, then the
  final log of line 522.\<close>

definition load_adaptive ::
  "browser_env \<Rightarrow> ('app, 'an, 'au, 'db, 'e) page \<Rightarrow> ('app, 'an, 'au, 'db, 'e) page" where
  "load_adaptive env S =
     S\<lparr>pg_perf := Some (new_AdaptivePerformanceSystem env),
       pg_console := console_calls (pg_console S)
         (init_lines env @ [(CLog, ap_tag ''System loaded and ready'')])\<rparr>"

definition load_firebase ::
  "('app, 'an, 'au, 'db, 'e) firebase_sdk \<Rightarrow> ('app, 'an, 'au, 'db, 'e) page
     \<Rightarrow> ('app, 'an, 'au, 'db, 'e) page" where
  "load_firebase sdk S =
     S\<lparr>pg_firebase := Some (fst (firebase_bootstrap sdk (pg_console S))),
       pg_console := snd (firebase_bootstrap sdk (pg_console S))\<rparr>"

definition page_console_event ::
  "console_event \<Rightarrow> ('app, 'an, 'au, 'db, 'e) page \<Rightarrow> ('app, 'an, 'au, 'db, 'e) page" where
  "page_console_event e S = S\<lparr>pg_console := console_step (pg_console S) e\<rparr>"

definition page_adaptive_event ::
  "adaptive_state \<Rightarrow> adaptive_event \<Rightarrow> ('app, 'an, 'au, 'db, 'e) page
     \<Rightarrow> ('app, 'an, 'au, 'db, 'e) page" where
  "page_adaptive_event A ev S =
     S\<lparr>pg_perf := Some (adaptive_step A ev),
       pg_console := console_calls (pg_console S) (adaptive_event_lines A ev)\<rparr>"

text \<open>Another page script calls \<^verbatim>\<open>executeWithRetry\<close> on the global instance, or
  \<^verbatim>\<open>getTimeout\<close> (directly or through \<^verbatim>\<open>executeWithTimeout\<close>, line 471), which logs
  its line 412. Neither changes the object.\<close>

definition page_retry ::
  "string \<Rightarrow> (nat \<Rightarrow> (string, string) outcome) \<Rightarrow> nat option \<Rightarrow> adaptive_state
     \<Rightarrow> ('app, 'an, 'au, 'db, 'e) page \<Rightarrow> ('app, 'an, 'au, 'db, 'e) page" where
  "page_retry name op maxN A S =
     S\<lparr>pg_console := console_calls (pg_console S) (retry_output name op maxN A)\<rparr>"

definition page_timeout_query ::
  "('app, 'an, 'au, 'db, 'e) page \<Rightarrow> ('app, 'an, 'au, 'db, 'e) page" where
  "page_timeout_query S = S\<lparr>pg_console := console_log (pg_console S) (ap_tag ''Timeout for'')\<rparr>"

text \<open>Plain console calls can come from any script at any time; the manager's methods are
  reachable only through \<^verbatim>\<open>window.consoleManager\<close> and the window functions of lines
  185--191, once the manager is loaded.\<close>

fun plain_console_call :: "console_event \<Rightarrow> bool" where
  "plain_console_call (Log m) = True"
| "plain_console_call (Warn m) = True"
| "plain_console_call (Error m) = True"
| "plain_console_call (Info m) = True"
| "plain_console_call e = False"

inductive page_reach ::
  "('app, 'an, 'au, 'db, 'e) firebase_sdk \<Rightarrow> ('app, 'an, 'au, 'db, 'e) page \<Rightarrow> bool"
  for sdk where
  start: "page_reach sdk page_start"
| console_manager: "page_reach sdk S \<Longrightarrow> \<not> pg_cm_loaded S \<Longrightarrow> page_reach sdk (load_console_manager S)"
| adaptive: "page_reach sdk S \<Longrightarrow> pg_perf S = None \<Longrightarrow> page_reach sdk (load_adaptive env S)"
| firebase: "page_reach sdk S \<Longrightarrow> pg_firebase S = None \<Longrightarrow> page_reach sdk (load_firebase sdk S)"
| console_event: "page_reach sdk S \<Longrightarrow> pg_cm_loaded S \<or> plain_console_call e \<Longrightarrow>
    page_reach sdk (page_console_event e S)"
| adaptive_event: "page_reach sdk S \<Longrightarrow> pg_perf S = Some A \<Longrightarrow>
    page_reach sdk (page_adaptive_event A ev S)"
| retry: "page_reach sdk S \<Longrightarrow> pg_perf S = Some A \<Longrightarrow>
    page_reach sdk (page_retry name op maxN A S)"
| timeout_query: "page_reach sdk S \<Longrightarrow> pg_perf S \<noteq> None \<Longrightarrow>
    page_reach sdk (page_timeout_query S)"

definition page_inv :: "('app, 'an, 'au, 'db, 'e) page \<Rightarrow> bool" where
  "page_inv S \<longleftrightarrow>
     cm_inv (manager (pg_console S)) \<and> (case pg_perf S of Some A \<Rightarrow> ap_inv A | None \<Rightarrow> True)"

text \<open>The specification of the console output: the calls no wrapper filters, and the lines
  the Firebase bootstrap prints with a given SDK.\<close>

definition quiet_msg :: "msg \<Rightarrow> bool" where
  "quiet_msg m \<longleftrightarrow> list_all (\<lambda>p. \<not> js_includes m p) default_patterns"

text \<open>A console call that no wrapper can filter: a log line of the performance system, or
  a warning or error that contains none of the twelve patterns.\<close>

fun quiet_line :: "channel \<times> msg \<Rightarrow> bool" where
  "quiet_line (CLog, m) = starts_with m ''[AdaptivePerformance] ''"
| "quiet_line (CWarn, m) = quiet_msg m"
| "quiet_line (CError, m) = quiet_msg m"
| "quiet_line (CInfo, m) = True"

definition firebase_lines :: "('app, 'an, 'au, 'db, 'e) firebase_sdk \<Rightarrow> (channel \<times> msg) list" where
  "firebase_lines sdk =
     (case initializeApp sdk firebaseConfig of
        Inl e \<Rightarrow> []
      | Inr app \<Rightarrow>
          (case (getAnalytics sdk app, getAuth sdk app) of
             (Inr an, Inr au) \<Rightarrow>
               (case getDatabase sdk app of Inl e \<Rightarrow> [(CWarn, db_warning)] | Inr db \<Rightarrow> []) @
               [(CLog, init_message)]
           | _ \<Rightarrow> []))"

subsection \<open>Facts about console calls on the page\<close>

lemma suppress_scan_no_match:
  "\<forall>p\<in>set ps. \<not> js_includes m p \<Longrightarrow> suppress_scan key m ps S = (True, S)"
  by (induction ps arbitrary: S) auto

text \<open>A warning that contains no pattern is printed and changes nothing else, as if the
  wrapper were not there.\<close>

lemma console_warn_quiet:
  assumes "cm_inv (manager P)" and "\<forall>p\<in>set default_patterns. \<not> js_includes m p"
  shows "console_warn P m = emit CWarn m P" and "console_error P m = emit CError m P"
proof -
  have "\<forall>p\<in>set (suppressPatterns (manager P)). \<not> js_includes m p"
    using assms by (auto simp: cm_inv_def)
  then show "console_warn P m = emit CWarn m P" and "console_error P m = emit CError m P"
    by (simp_all add: console_error_cases filtered_call_def suppress_scan_no_match)
qed

lemma ap_tag_log_category: "log_category (ap_tag s) = ''adaptiveperformance''"
  by (simp add: ap_tag_def log_category_def js_simps)

lemma console_log_ap_tag: "console_log P (ap_tag s) = emit CLog (ap_tag s) P"
  by (simp add: console_log_def log_passes_def ap_tag_log_category js_simps)

lemma starts_with_ap_tag: "starts_with m ''[AdaptivePerformance] '' \<Longrightarrow> \<exists>s. m = ap_tag s"
  by (auto simp: starts_with_prefix prefix_def ap_tag_def)

lemma console_call_quiet:
  assumes "cm_inv (manager P)" and "quiet_line c"
  shows "console_call P c = P\<lparr>printed := printed P @ [c]\<rparr>"
proof (cases c)
  case (Pair ch m)
  show ?thesis
  proof (cases ch)
    case CLog
    then obtain s where "m = ap_tag s" using assms(2) Pair starts_with_ap_tag by auto
    then show ?thesis using Pair CLog by (simp add: console_log_ap_tag emit_def)
  next
    case CWarn
    then show ?thesis
      using Pair assms console_warn_quiet(1) [OF assms(1), of m]
      by (simp add: quiet_msg_def list_all_iff emit_def)
  next
    case CError
    then show ?thesis
      using Pair assms console_warn_quiet(2) [OF assms(1), of m]
      by (simp add: quiet_msg_def list_all_iff emit_def)
  next
    case CInfo
    then show ?thesis using Pair by (simp add: emit_def)
  qed
qed

lemma console_calls_Cons: "console_calls P (c # cs) = console_calls (console_call P c) cs"
  by (simp add: console_calls_def)

lemma console_calls_quiet:
  "cm_inv (manager P) \<Longrightarrow> list_all quiet_line cs \<Longrightarrow>
   console_calls P cs = P\<lparr>printed := printed P @ cs\<rparr>"
proof (induction cs arbitrary: P)
  case Nil
  then show ?case by (simp add: console_calls_def)
next
  case (Cons c cs)
  then have step: "console_call P c = P\<lparr>printed := printed P @ [c]\<rparr>"
    by (simp add: console_call_quiet)
  then have "cm_inv (manager (console_call P c))" using Cons.prems(1) by simp
  with Cons.prems(2) step show ?case by (simp add: console_calls_Cons Cons.IH)
qed

lemma adaptive_lines_quiet:
  "list_all quiet_line (init_lines env @ [(CLog, ap_tag ''System loaded and ready'')])"
  "list_all quiet_line (adaptive_event_lines A ev)"
  by (cases ev; simp add: init_lines_def network_lines_def device_lines_def memory_lines_def
      Let_def ap_tag_def quiet_msg_def default_patterns_def js_simps)+

lemma db_warning_no_pattern: "\<forall>p\<in>set default_patterns. \<not> js_includes db_warning p"
  by (simp add: default_patterns_def db_warning_def js_simps)

lemma console_log_init_message: "console_log P init_message = emit CLog init_message P"
  by (simp add: console_log_def log_passes_def init_message_def)

lemma firebase_bootstrap_fst: "fst (firebase_bootstrap sdk P) = fst (firebase_bootstrap sdk P')"
  by (simp add: firebase_bootstrap_def database_step_def case_prod_beta split: sum.split)

text \<open>With the manager's invariant, the bootstrap's console calls only append its lines.\<close>

lemma firebase_bootstrap_console:
  assumes "cm_inv (manager P)"
  shows "snd (firebase_bootstrap sdk P) = P\<lparr>printed := printed P @ firebase_lines sdk\<rparr>"
proof (cases "initializeApp sdk firebaseConfig")
  case (Inr app)
  show ?thesis
  proof (cases "getAnalytics sdk app")
    case (Inr an)
    show ?thesis
    proof (cases "getAuth sdk app")
      case (Inr au)
      show ?thesis
        using firebase_bootstrap_success [OF \<open>initializeApp sdk firebaseConfig = Inr app\<close>
            \<open>getAnalytics sdk app = Inr an\<close> Inr]
          console_warn_quiet [OF assms db_warning_no_pattern]
          \<open>initializeApp sdk firebaseConfig = Inr app\<close> \<open>getAnalytics sdk app = Inr an\<close> Inr
        by (simp add: console_log_init_message database_step_def firebase_lines_def emit_def
            split: sum.split)
    qed (simp_all add: firebase_bootstrap_abort firebase_lines_def
        \<open>initializeApp sdk firebaseConfig = Inr app\<close> Inr)
  qed (simp_all add: firebase_bootstrap_abort firebase_lines_def Inr)
qed (simp_all add: firebase_bootstrap_abort firebase_lines_def)

lemma cm_inv_new: "cm_inv new_ConsoleManager"
  using console_boot_inv by (simp add: console_boot_def)

lemma load_adaptive_console:
  "cm_inv (manager (pg_console S)) \<Longrightarrow>
   pg_console (load_adaptive env S) =
     (pg_console S)\<lparr>printed := printed (pg_console S) @
        init_lines env @ [(CLog, ap_tag ''System loaded and ready'')]\<rparr>"
  by (simp add: load_adaptive_def console_calls_quiet [OF _ adaptive_lines_quiet(1)])

lemma page_adaptive_event_console:
  "cm_inv (manager (pg_console S)) \<Longrightarrow>
   pg_console (page_adaptive_event A ev S) =
     (pg_console S)\<lparr>printed := printed (pg_console S) @ adaptive_event_lines A ev\<rparr>"
  by (simp add: page_adaptive_event_def console_calls_quiet [OF _ adaptive_lines_quiet(2)])

lemma load_firebase_console:
  "cm_inv (manager (pg_console S)) \<Longrightarrow>
   pg_console (load_firebase sdk S) =
     (pg_console S)\<lparr>printed := printed (pg_console S) @ firebase_lines sdk\<rparr>"
  by (simp add: load_firebase_def firebase_bootstrap_console)

lemma string_of_nat_small [simp]: "n < 10 \<Longrightarrow> string_of_nat n = [digit_char n]"
  by (simp add: string_of_nat.simps)

lemma string_of_nat_large [simp]:
  "\<not> n < 10 \<Longrightarrow> string_of_nat n = string_of_nat (n div 10) @ [digit_char (n mod 10)]"
  by (subst string_of_nat.simps) simp

lemma console_call_inv: "cm_inv (manager P) \<Longrightarrow> cm_inv (manager (console_call P c))"
proof (cases c)
  case (Pair ch m)
  assume "cm_inv (manager P)"
  then show ?thesis
    using Pair console_step_inv [of P "Log m"] console_step_inv [of P "Warn m"]
      console_step_inv [of P "Error m"] console_step_inv [of P "Info m"]
    by (cases ch) simp_all
qed

lemma console_calls_inv: "cm_inv (manager P) \<Longrightarrow> cm_inv (manager (console_calls P cs))"
  by (induction cs arbitrary: P) (simp_all add: console_calls_def console_call_inv)

lemma sublist_split_middle:
  assumes "sublist p (a @ d @ b)" and "d \<noteq> []" and "set d \<subseteq> D" and "set p \<inter> D = {}"
  shows "sublist p a \<or> sublist p b"
proof -
  have no_mid: "q = []" if "set q \<subseteq> set d" "set q \<subseteq> set p" for q
  proof -
    have "set q \<subseteq> {}" using that assms(3,4) by blast
    then show ?thesis by simp
  qed
  from assms(1) consider (l) "sublist p a" | (r) "sublist p (d @ b)"
    | (s) p1 p2 where "p = p1 @ p2" "suffix p1 a" "prefix p2 (d @ b)"
    unfolding sublist_append by blast
  then show ?thesis
  proof cases
    case l
    then show ?thesis ..
  next
    case s
    show ?thesis
    proof (cases p2)
      case Nil
      with s show ?thesis by (auto intro: suffix_imp_sublist)
    next
      case (Cons x xs)
      with s assms(2) have "x = hd d" by (cases d) (auto simp: prefix_Cons)
      with assms(2,3) have "x \<in> D" by (cases d) auto
      moreover have "x \<in> set p" using s Cons by simp
      ultimately show ?thesis using assms(4) by blast
    qed
  next
    case r
    then consider (m) "sublist p d" | (rb) "sublist p b"
      | (t) q1 q2 where "p = q1 @ q2" "suffix q1 d" "prefix q2 b"
      unfolding sublist_append by blast
    then show ?thesis
    proof cases
      case m
      then have "p = []" by (intro no_mid) (auto dest: set_mono_sublist)
      then show ?thesis by simp
    next
      case rb
      then show ?thesis ..
    next
      case t
      then have "q1 = []" by (intro no_mid) (auto dest: set_mono_suffix)
      with t show ?thesis by (auto intro: prefix_imp_sublist)
    qed
  qed
qed

lemma string_of_nat_digits:
  "string_of_nat n \<noteq> [] \<and> set (string_of_nat n) \<subseteq> set ''0123456789''"
proof (induction n rule: string_of_nat.induct)
  case (1 n)
  have d: "digit_char k \<in> set ''0123456789''" if "k < 10" for k
    unfolding digit_char_def using that by (intro nth_mem) simp
  show ?case
  proof (cases "n < 10")
    case True
    then show ?thesis using d by simp
  next
    case False
    then show ?thesis using "1.IH" d [of "n mod 10"] by simp
  qed
qed

lemma default_patterns_digit_free: "\<forall>p\<in>set default_patterns. set p \<inter> set ''0123456789'' = {}"
  by (simp add: default_patterns_def)

text \<open>The fixed parts of the two filtered retry messages, for the operation names of the
  constructor's table, contain none of the patterns.\<close>

lemma table_retry_parts_quiet:
  "\<forall>nm\<in>set (map fst default_baseTimeouts). \<forall>p\<in>set default_patterns.
     \<not> js_includes (''[AdaptivePerformance] '' @ nm @ '' failed on attempt '') p \<and>
     \<not> js_includes '':'' p \<and>
     \<not> js_includes (''[AdaptivePerformance] '' @ nm @ '' failed after '') p \<and>
     \<not> js_includes '' attempts'' p"
  by (simp add: default_baseTimeouts_def default_patterns_def js_simps)

lemma quiet_msg_number:
  assumes "\<forall>p\<in>set default_patterns. \<not> js_includes a p \<and> \<not> js_includes b p"
  shows "quiet_msg (a @ string_of_nat n @ b)"
  unfolding quiet_msg_def list_all_iff
proof
  fix p assume p: "p \<in> set default_patterns"
  show "\<not> js_includes (a @ string_of_nat n @ b) p"
  proof
    assume "js_includes (a @ string_of_nat n @ b) p"
    then have "sublist p (a @ string_of_nat n @ b)" by (simp only: includes_sublist)
    moreover have "string_of_nat n \<noteq> []" "set (string_of_nat n) \<subseteq> set ''0123456789''"
      using string_of_nat_digits by blast+
    moreover have "set p \<inter> set ''0123456789'' = {}" using default_patterns_digit_free p by blast
    ultimately have "sublist p a \<or> sublist p b" by (rule sublist_split_middle)
    moreover have "\<not> js_includes a p \<and> \<not> js_includes b p" using assms p by blast
    ultimately show False by (simp only: includes_sublist) blast
  qed
qed

lemma retry_attempt_msg_quiet:
  assumes "nm \<in> set (map fst default_baseTimeouts)"
  shows "quiet_msg (ap_tag (nm @ '' failed on attempt '' @ string_of_nat i @ '':''))"
    and "quiet_msg (ap_tag (nm @ '' failed after '' @ string_of_nat n @ '' attempts''))"
proof -
  have A: "\<forall>p\<in>set default_patterns.
      \<not> js_includes (''[AdaptivePerformance] '' @ nm @ '' failed on attempt '') p \<and>
      \<not> js_includes '':'' p"
    and B: "\<forall>p\<in>set default_patterns.
      \<not> js_includes (''[AdaptivePerformance] '' @ nm @ '' failed after '') p \<and>
      \<not> js_includes '' attempts'' p"
    using table_retry_parts_quiet assms by blast+
  show "quiet_msg (ap_tag (nm @ '' failed on attempt '' @ string_of_nat i @ '':''))"
    using quiet_msg_number [OF A, of i] by (simp add: ap_tag_def)
  show "quiet_msg (ap_tag (nm @ '' failed after '' @ string_of_nat n @ '' attempts''))"
    using quiet_msg_number [OF B, of n] by (simp add: ap_tag_def)
qed

lemma retry_trace_lines_quiet:
  assumes "nm \<in> set (map fst default_baseTimeouts)"
  shows "list_all quiet_line (retry_trace_lines nm mx op tr)"
proof (induction tr)
  case Nil
  then show ?case by simp
next
  case (Cons ev es)
  then show ?case
    using retry_attempt_msg_quiet(1) [OF assms]
    by (cases ev) (simp_all add: ap_tag_def split: outcome.split reason.split)
qed

lemma retry_output_quiet:
  assumes "nm \<in> set (map fst default_baseTimeouts)"
  shows "list_all quiet_line (retry_output nm op maxN A)"
proof -
  have t: "list_all quiet_line (retry_trace_lines nm mx op tr)" for mx tr
    using retry_trace_lines_quiet [OF assms] .
  have e: "quiet_line (CError, ap_tag (nm @ '' failed after '' @ string_of_nat n @ '' attempts''))"
    for n using retry_attempt_msg_quiet(2) [OF assms] by simp
  show ?thesis using t e by (simp add: retry_output_def Let_def split: sum.split retry_failure.split)
qed

subsection \<open>The page invariant, by rule induction\<close>

lemma page_reach_inv: "page_reach sdk S \<Longrightarrow> page_inv S"
proof (induction rule: page_reach.induct)
  case start
  then show ?case by (simp add: page_inv_def page_start_def native_console_def cm_inv_new)
next
  case (console_manager S)
  then show ?case by (simp add: page_inv_def load_console_manager_def cm_inv_new)
next
  case (adaptive S env)
  then show ?case
    by (simp add: page_inv_def load_adaptive_console) (simp add: load_adaptive_def ap_inv_new)
next
  case (firebase S)
  then show ?case by (simp add: page_inv_def load_firebase_console) (simp add: load_firebase_def)
next
  case (console_event S e)
  then show ?case by (simp add: page_inv_def page_console_event_def console_step_inv)
next
  case (adaptive_event S A ev)
  then show ?case
    by (simp add: page_inv_def page_adaptive_event_console ap_inv_step)
      (simp add: page_adaptive_event_def ap_inv_step)
next
  case (retry S A name op maxN)
  then show ?case by (simp add: page_inv_def page_retry_def console_calls_inv)
next
  case (timeout_query S)
  then show ?case
    using console_step_inv [of "pg_console S" "Log (ap_tag ''Timeout for'')"]
    by (simp add: page_inv_def page_timeout_query_def)
qed

subsection \<open>Properties of the page\<close>

text \<open>Claim C32. In every state the page reaches, whatever order the scripts load in and
  whatever calls follow, the console manager's suppression set has no duplicates and at most
  24 keys, and the performance system (once constructed) keeps at most 100 metrics and its
  constructor's timeout table.\<close>

theorem page_reach_bounds:
  assumes "page_reach sdk S"
  shows "distinct (suppressedErrors (manager (pg_console S))) \<and> getErrorStats (pg_console S) \<le> 24 \<and>
         (case pg_perf S of
            Some A \<Rightarrow> length (performanceMetrics A) \<le> 100 \<and> baseTimeouts A = default_baseTimeouts
          | None \<Rightarrow> True)"
proof -
  have "page_inv S" using assms by (rule page_reach_inv)
  then have c: "cm_inv (manager (pg_console S))"
    and p: "case pg_perf S of Some A \<Rightarrow> ap_inv A | None \<Rightarrow> True"
    by (simp_all add: page_inv_def)
  from c have "distinct (suppressedErrors (manager (pg_console S)))" by (simp add: cm_inv_def)
  moreover from c have "getErrorStats (pg_console S) \<le> 24" by (rule cm_inv_stats_bounded)
  moreover from p have "case pg_perf S of
      Some A \<Rightarrow> length (performanceMetrics A) \<le> 100 \<and> baseTimeouts A = default_baseTimeouts
    | None \<Rightarrow> True"
    by (cases "pg_perf S") (simp_all add: ap_inv_def)
  ultimately show ?thesis by blast
qed

theorem page_reach_bounds_witness:
  "page_reach (sample_sdk False) (load_adaptive desktop_4g_env (load_console_manager page_start)) \<and>
   distinct (suppressedErrors (manager (pg_console
     (load_adaptive desktop_4g_env (load_console_manager page_start :: (string, string, string, string, string) page))))) \<and>
   getErrorStats (pg_console (load_adaptive desktop_4g_env
     (load_console_manager page_start :: (string, string, string, string, string) page))) \<le> 24 \<and>
   (case pg_perf (load_adaptive desktop_4g_env
       (load_console_manager page_start :: (string, string, string, string, string) page)) of
      Some A \<Rightarrow> length (performanceMetrics A) \<le> 100 \<and> baseTimeouts A = default_baseTimeouts
    | None \<Rightarrow> True)"
proof -
  have r0: "page_reach (sample_sdk False) (page_start :: (string, string, string, string, string) page)"
    by (rule page_reach.start)
  have r1: "page_reach (sample_sdk False) (load_console_manager page_start :: (string, string, string, string, string) page)"
    using r0 by (rule page_reach.console_manager) (simp add: page_start_def)
  have h: "page_reach (sample_sdk False) (load_adaptive desktop_4g_env
      (load_console_manager page_start :: (string, string, string, string, string) page))"
    using r1 by (rule page_reach.adaptive) (simp add: load_console_manager_def page_start_def)
  show ?thesis using page_reach_bounds [OF h] h by blast
qed

text \<open>Claim C33. On every reachable page, the performance system's console calls (at
  construction, at a memory check, at a reset) are printed unchanged and in order, and leave
  the console manager's state as it was: none of them is filtered or consumes a suppression
  key.\<close>

theorem adaptive_output_unfiltered:
  assumes "page_reach sdk S"
  shows "pg_console (load_adaptive env S) =
           (pg_console S)\<lparr>printed := printed (pg_console S) @
              init_lines env @ [(CLog, ap_tag ''System loaded and ready'')]\<rparr> \<and>
         pg_console (page_adaptive_event A ev S) =
           (pg_console S)\<lparr>printed := printed (pg_console S) @ adaptive_event_lines A ev\<rparr>"
proof -
  have "cm_inv (manager (pg_console S))"
    using page_reach_inv [OF assms] by (simp add: page_inv_def)
  then show ?thesis by (simp add: load_adaptive_console page_adaptive_event_console)
qed

theorem adaptive_output_unfiltered_witness:
  "page_reach (sample_sdk False) (load_console_manager page_start) \<and>
   pg_console (page_adaptive_event (fresh_adaptive_state\<lparr>memoryTimers := 1\<rparr>)
       (MemoryCheck desktop_4g_env 95 100)
       (load_console_manager page_start :: (string, string, string, string, string) page)) =
     console_boot\<lparr>printed := [(CWarn, ap_tag ''High memory usage detected:'')]\<rparr>"
proof -
  have r0: "page_reach (sample_sdk False) (page_start :: (string, string, string, string, string) page)"
    by (rule page_reach.start)
  have h: "page_reach (sample_sdk False) (load_console_manager page_start :: (string, string, string, string, string) page)"
    using r0 by (rule page_reach.console_manager) (simp add: page_start_def)
  have "pg_console (load_console_manager page_start :: (string, string, string, string, string) page) =
      console_boot"
    by (simp add: load_console_manager_def page_start_def native_console_def console_boot_def)
  then show ?thesis
    using adaptive_output_unfiltered [OF h, of desktop_4g_env "fresh_adaptive_state\<lparr>memoryTimers := 1\<rparr>"
        "MemoryCheck desktop_4g_env 95 100"] h
    by (simp add: memory_lines_def console_boot_def)
qed

text \<open>Claim C34. The order in which the console manager and each of the other two scripts
  load does not matter: from any reachable state, loading the console manager before or after
  the Firebase bootstrap, or before or after the performance system, leads to the same page.\<close>

theorem load_order_commutes:
  assumes "page_reach sdk S"
  shows "load_firebase sdk (load_console_manager S) = load_console_manager (load_firebase sdk S) \<and>
         load_adaptive env (load_console_manager S) = load_console_manager (load_adaptive env S)"
proof -
  have inv: "cm_inv (manager (pg_console S))"
    using page_reach_inv [OF assms] by (simp add: page_inv_def)
  have inv': "cm_inv (manager (pg_console (load_console_manager S)))"
    by (simp add: load_console_manager_def cm_inv_new)
  have fb: "load_firebase sdk (load_console_manager S) = load_console_manager (load_firebase sdk S)"
  proof -
    have "pg_console (load_firebase sdk (load_console_manager S)) =
        pg_console (load_console_manager (load_firebase sdk S))"
      using load_firebase_console [OF inv'] load_firebase_console [OF inv]
      by (simp add: load_console_manager_def)
    then show ?thesis
      by (simp add: load_firebase_def load_console_manager_def firebase_bootstrap_fst [of sdk "(pg_console S)\<lparr>manager := new_ConsoleManager, overridden := True\<rparr>" "pg_console S"])
  qed
  have ap: "load_adaptive env (load_console_manager S) = load_console_manager (load_adaptive env S)"
  proof -
    have "pg_console (load_adaptive env (load_console_manager S)) =
        pg_console (load_console_manager (load_adaptive env S))"
      using load_adaptive_console [OF inv'] load_adaptive_console [OF inv]
      by (simp add: load_console_manager_def)
    then show ?thesis by (simp add: load_adaptive_def load_console_manager_def)
  qed
  from fb ap show ?thesis ..
qed

theorem load_order_commutes_witness:
  "page_reach (sample_sdk False) page_start \<and>
   load_firebase (sample_sdk False) (load_console_manager page_start) =
     load_console_manager (load_firebase (sample_sdk False) page_start) \<and>
   load_adaptive desktop_4g_env (load_console_manager page_start :: (string, string, string, string, string) page) =
     load_console_manager (load_adaptive desktop_4g_env page_start)"
proof -
  have h: "page_reach (sample_sdk False) (page_start :: (string, string, string, string, string) page)"
    by (rule page_reach.start)
  show ?thesis using load_order_commutes [OF h, of desktop_4g_env] h by blast
qed

text \<open>Claim C37. On every reachable page, a call of \<^verbatim>\<open>executeWithRetry\<close> for one of the
  operation names of the constructor's table, whatever the operation does and with a whole
  number of attempts or the default, prints exactly its progress lines, in order: the console
  manager filters none of them (the numbers in the messages cannot complete a pattern) and
  its suppression state is unchanged.\<close>

theorem retry_output_printed:
  assumes "page_reach sdk S" and "nm \<in> set (map fst default_baseTimeouts)"
  shows "pg_console (page_retry nm op maxN A S) =
           (pg_console S)\<lparr>printed := printed (pg_console S) @ retry_output nm op maxN A\<rparr>"
proof -
  have "cm_inv (manager (pg_console S))"
    using page_reach_inv [OF assms(1)] by (simp add: page_inv_def)
  then show ?thesis
    by (simp add: page_retry_def console_calls_quiet [OF _ retry_output_quiet [OF assms(2)]])
qed

theorem retry_output_printed_witness:
  "page_reach (sample_sdk False) (load_console_manager page_start) \<and>
   ''bookingsLoad'' \<in> set (map fst default_baseTimeouts) \<and>
   retry_output ''bookingsLoad'' (\<lambda>i. Rejected (Reason ''offline'') :: (string, string) outcome) None
       fresh_adaptive_state =
     [(CLog, ap_tag ''Executing bookingsLoad (attempt 1/3)''),
      (CWarn, ap_tag ''bookingsLoad failed on attempt 1:''),
      (CLog, ap_tag ''Retrying bookingsLoad in 1000ms...''),
      (CLog, ap_tag ''Executing bookingsLoad (attempt 2/3)''),
      (CWarn, ap_tag ''bookingsLoad failed on attempt 2:''),
      (CLog, ap_tag ''Retrying bookingsLoad in 1500ms...''),
      (CLog, ap_tag ''Executing bookingsLoad (attempt 3/3)''),
      (CWarn, ap_tag ''bookingsLoad failed on attempt 3:''),
      (CError, ap_tag ''bookingsLoad failed after 3 attempts'')] \<and>
   pg_console (page_retry ''bookingsLoad'' (\<lambda>i. Rejected (Reason ''offline'')) None fresh_adaptive_state
       (load_console_manager page_start :: (string, string, string, string, string) page)) =
     console_boot\<lparr>printed := retry_output ''bookingsLoad''
       (\<lambda>i. Rejected (Reason ''offline'') :: (string, string) outcome) None fresh_adaptive_state\<rparr>"
proof -
  let ?op = "\<lambda>i. Rejected (Reason ''offline'') :: (string, string) outcome"
  have r0: "page_reach (sample_sdk False) (page_start :: (string, string, string, string, string) page)"
    by (rule page_reach.start)
  have h1: "page_reach (sample_sdk False) (load_console_manager page_start :: (string, string, string, string, string) page)"
    using r0 by (rule page_reach.console_manager) (simp add: page_start_def)
  have h2: "''bookingsLoad'' \<in> set (map fst default_baseTimeouts)"
    by (simp add: default_baseTimeouts_def)
  have run: "executeWithRetry fresh_adaptive_state ?op (map_option of_nat None) =
      (Inl (LastError (Some (Reason ''offline''))), [Call 1, Wait 1000, Call 2, Wait 1500, Call 3])"
    by (simp add: executeWithRetry_def fresh_adaptive_state_def retry_loop_rejected retry_loop_stop
        numeral_eq_Suc backoff_delay_three_halves)
  have lines: "retry_output ''bookingsLoad'' ?op None fresh_adaptive_state =
     [(CLog, ap_tag ''Executing bookingsLoad (attempt 1/3)''),
      (CWarn, ap_tag ''bookingsLoad failed on attempt 1:''),
      (CLog, ap_tag ''Retrying bookingsLoad in 1000ms...''),
      (CLog, ap_tag ''Executing bookingsLoad (attempt 2/3)''),
      (CWarn, ap_tag ''bookingsLoad failed on attempt 2:''),
      (CLog, ap_tag ''Retrying bookingsLoad in 1500ms...''),
      (CLog, ap_tag ''Executing bookingsLoad (attempt 3/3)''),
      (CWarn, ap_tag ''bookingsLoad failed on attempt 3:''),
      (CError, ap_tag ''bookingsLoad failed after 3 attempts'')]"
    unfolding retry_output_def Let_def run
    by (simp add: fresh_adaptive_state_def digit_char_def string_of_int_def)
  have "pg_console (load_console_manager page_start :: (string, string, string, string, string) page) =
      console_boot"
    by (simp add: load_console_manager_def page_start_def native_console_def console_boot_def)
  then show ?thesis
    using retry_output_printed [OF h1 h2, of ?op None fresh_adaptive_state] h1 h2 lines
    by (simp add: console_boot_def)
qed

end
