(* ===== verification/Spec2Isabelle.thy ===== *)
theory Spec2Isabelle
  imports Console Adaptive Retry Firebase Page
begin

text \<open>
  \<^bold>\<open>A verification library for the BestBuddies pet-grooming page scripts.\<close>

  \<^emph>\<open>The program.\<close> The repository's client-side glue consists of three scripts loaded
  into one page, which share nothing but the global \<^verbatim>\<open>console\<close> and \<^verbatim>\<open>window\<close>:
  \<^item> the \<^verbatim>\<open>ConsoleManager\<close> (\<^verbatim>\<open>src/website-main/htdocs/js/console-manager.js\<close>,
    lines 6--191) replaces \<^verbatim>\<open>console.log\<close>, \<^verbatim>\<open>warn\<close> and \<^verbatim>\<open>error\<close> by wrappers
    that drop noisy messages: errors and warnings that contain one of twelve substrings are
    printed once per 20-character key, bracket-tagged debug logs are gated by categories;
  \<^item> the \<^verbatim>\<open>AdaptivePerformanceSystem\<close> (same file, lines 198--522) classifies the
    network and the device once at start-up, scales timeouts by them, retries operations with
    exponential back-off, races operations against a timer, and keeps a bounded history of
    resource timings;
  \<^item> the Firebase bootstrap (\<^verbatim>\<open>src/unnamed/part_000\<close>) initialises the vendor SDK and
    publishes its handles on \<^verbatim>\<open>window\<close>.
  The scripts interact only through the console: the other two scripts' console calls pass
  through the manager's wrappers when it is loaded first.

  \<^emph>\<open>The library.\<close>
  \<^item> \<open>Prelude\<close>: the JavaScript helpers the code calls (\<^verbatim>\<open>includes\<close> as
    \<open>js_includes\<close>, \<^verbatim>\<open>startsWith\<close>, \<^verbatim>\<open>toLowerCase\<close> on the ASCII view, a
    \<^verbatim>\<open>Set\<close> as an insertion-ordered list, \<^verbatim>\<open>Math.round\<close> as \<open>round\<close> on \<open>rat\<close>),
    their characterisation by the library's \<open>sublist\<close> and \<open>prefix\<close>, and the
    collection \<open>js_simps\<close> that evaluates them on literals.
  \<^item> \<open>Console\<close>: the manager's fields as the record \<open>console_manager\<close>, the page's
    console as \<open>page_console\<close> (the manager, whether the wrappers are installed, and
    the lines printed so far); \<open>console_log\<close>, \<open>console_warn\<close>, \<open>console_error\<close>
    are the three wrappers, \<open>suppress_scan\<close> the pattern loop they share,
    \<open>log_passes\<close> the category gate with \<open>bracket_capture\<close> for the regular
    expression; the methods \<open>cm_reset\<close>, \<open>cm_restore\<close>, \<open>enableVerboseMode\<close>,
    \<open>enableProductionMode\<close>, \<open>enableDebugCategory\<close>, the clean logger and the
    rejection listener are one definition each; \<open>console_step\<close> dispatches the calls
    other page scripts make (\<open>console_event\<close>) and \<open>console_run\<close> runs a list of
    them from \<open>console_boot\<close>, the state \<^verbatim>\<open>new ConsoleManager()\<close> leaves.
    Its lemmas: the once-per-key suppression (C1), first occurrences printed (C2), verbose mode
    switching filtering off for good (C3), the exact condition under which a log line is
    dropped (C4), the invariant \<open>cm_inv\<close> kept by every call and the bound of 24 keys
    (C5), the keys an early \<^verbatim>\<open>return\<close> leaves behind, which
    swallow every later \<^verbatim>\<open>Permission denied\<close> error (C6), and
    \<^verbatim>\<open>restore()\<close> (C7).
  \<^item> \<open>Adaptive\<close>: the object's fields as \<open>adaptive_state\<close>, the browser values it
    samples as \<open>browser_env\<close>; \<open>detectNetworkSpeed\<close>, \<open>detectDeviceCapability\<close>,
    \<open>ap_init\<close>, \<open>memory_tick\<close> (one firing of the memory timer), \<open>recordMetric\<close>,
    \<open>observer_callback\<close>, \<open>ap_reset\<close>, \<open>getTimeout\<close> and
    \<open>getPerformanceReport\<close> are the methods; \<open>adaptive_step\<close> and
    \<open>adaptive_run\<close> drive the object by the browser's deliveries, timer firings and the
    page's reset. Its lemmas: \<^verbatim>\<open>getTimeout\<close> is the exact product of base and
    multipliers (C8), monotone in both classes (C9), between 96 and 135000 ms (C10); the
    network classification at construction against the spec's table (C11) and its failure
    while the page is still loading (C12); monotone device classes (C13); the history as the newest 100 metrics (C14, C15); duplicate recording after
    \<^verbatim>\<open>reset()\<close> (C16); the memory monitor's downgrade and restore (C17); the type of
    \<^verbatim>\<open>getTimeout\<close>'s result, a number except exactly for the prototype keys (C35); and
    \<^verbatim>\<open>reset()\<close> as a round trip to the constructed state, up to the registrations it
    leaks (C36).
  \<^item> \<open>Retry\<close>: \<^verbatim>\<open>executeWithRetry\<close> as the terminating function \<open>retry_loop\<close>
    returning its result and the trace of calls and waits, \<^verbatim>\<open>executeWithTimeout\<close> as
    a race decided by the settle time. Its lemmas: success after \<open>k\<close> failures with exactly
    \<open>k\<close> delays (C18), exhaustion after exactly \<open>N\<close> calls with the last error (C19),
    termination and the bound on calls (C20), nullish rejections (C21), fewer than one attempt
    (C22), growing delays (C23), the race (C24, C25), every trace a prefix of the schedule
    \<open>retry_plan\<close> and so at most 2500 ms of back-off with the defaults (C30), and the extra
    wait a fractional \<^verbatim>\<open>maxAttempts\<close> causes (C31).
  \<^item> \<open>Firebase\<close>: the configuration, the SDK as a record of its four entry points, the
    module body as \<open>firebase_bootstrap\<close>. Its lemmas: the handles published and the
    database failure tolerated (C26), analytics failure aborting the module (C27).
  \<^item> \<open>Page\<close>: the page as the record \<open>page\<close> (the console, the performance system
    once constructed, the bootstrap's outcome once run) and the inductive relation
    \<open>page_reach\<close>: the scripts load in any order (\<open>load_console_manager\<close>,
    \<open>load_adaptive\<close>, \<open>load_firebase\<close>) and afterwards console calls, the manager's
    window functions and the browser's events on the performance system interleave freely.
    The performance system's own console calls are the lists \<open>init_lines\<close>,
    \<open>memory_lines\<close> and \<open>adaptive_event_lines\<close>, and \<^verbatim>\<open>executeWithRetry\<close>'s
    template-literal progress lines are \<open>retry_output\<close> (numbers printed by
    \<open>string_of_nat\<close>), all passed through the console; other scripts' calls of
    \<^verbatim>\<open>executeWithRetry\<close> and \<^verbatim>\<open>getTimeout\<close> are page steps too. Its lemmas: the
    invariant \<open>page_inv\<close> by rule induction and the bounds it gives (C32), the performance
    system's output never filtered and never touching the suppression state (C33), load
    orders that commute (C34), and the retry's progress lines printed exactly for the
    table's operation names (C37), since a pattern without digits cannot span the printed
    attempt number (\<open>sublist_split_middle\<close>).
  \<^item> This theory: the properties that span scripts, the bootstrap's console lines passing
    the manager (C28) and the performance system's tagged log lines passing its category
    gate (C29).

  \<^emph>\<open>Modelling choices.\<close> A console call is its first argument's string, which is all
  the wrappers inspect; the output is the list of \<open>(channel, message)\<close> pairs the original
  console receives. Strings are UTF-8 byte lists: emoji markers are written as their bytes,
  and containment of ASCII words in \<open>js_lower\<close>'s result is the same as in JavaScript's
  \<^verbatim>\<open>toLowerCase()\<close>. JavaScript numbers are exact rationals; the timeouts the code
  computes are whole numbers, so floating-point rounding cannot change what
  \<^verbatim>\<open>Math.round\<close> returns; \<open>NaN\<close> is \<open>None\<close> where the code can produce it. An
  asynchronous operation is modelled by its outcomes: \<open>op k\<close> is what its \<open>k\<close>-th
  invocation settles to, and the race takes the time it settles at. The retry loop needs no
  fuel: it is a total function whose measure is the number of attempts left,
  \<open>\<lfloor>maxAttempts\<rfloor> + 1 - attempt\<close>. Browser registrations (observers, intervals) are
  counters in the state; the browser's calls into them are the events of
  \<open>adaptive_event\<close>. The Firebase SDK is a parameter: the model covers every outcome of
  each entry point.

  \<^emph>\<open>Not modelled.\<close> The vendor SDK (Firebase) and the browser APIs themselves: they
  are inputs of the model. The formatting of diagnostic messages that no wrapper inspects
  (\<^verbatim>\<open>toFixed\<close>, the report's ISO time stamp, the objects logged next to a message).
  \<open>Infinity\<close> or \<open>NaN\<close> as \<^verbatim>\<open>maxAttempts\<close> (the loop would not end, or not start).
  The time stamps of one delivery of resource entries are taken equal. The printing of a
  fractional \<^verbatim>\<open>maxAttempts\<close> in the progress lines (JavaScript's shortest
  round-trip decimal of a double), and the warnings of the two monitoring set-ups' \<^verbatim>\<open>catch\<close> blocks, whose
  \<^verbatim>\<open>try\<close> bodies the model does not let throw.
\<close>

subsection \<open>Facts shared by the cross-script properties\<close>

lemma db_warning_printed:
  assumes "cm_inv (manager P)"
  shows "printed (console_warn P db_warning) = printed P @ [(CWarn, db_warning)]"
  using console_warn_quiet [OF assms db_warning_no_pattern] by simp

lemma init_message_printed:
  "printed (console_log P init_message) = printed P @ [(CLog, init_message)]"
  by (simp add: console_log_init_message)

text \<open>Claim C28. With the console manager loaded first (its invariant holds), the Firebase
  bootstrap's two console lines are never filtered: a successful bootstrap prints the database
  warning exactly when the database handle is \<^verbatim>\<open>null\<close>, then the initialisation line; a
  failed one prints nothing.\<close>

theorem firebase_output_unfiltered:
  assumes "cm_inv (manager P)"
  shows "printed (snd (firebase_bootstrap sdk P)) =
           printed P @
           (case fst (firebase_bootstrap sdk P) of
              Inl e \<Rightarrow> []
            | Inr g \<Rightarrow> (if firebaseDatabase g = None then [(CWarn, db_warning)] else []) @
                        [(CLog, init_message)])"
proof (cases "initializeApp sdk firebaseConfig")
  case (Inr app)
  show ?thesis
  proof (cases "getAnalytics sdk app")
    case (Inr an)
    show ?thesis
    proof (cases "getAuth sdk app")
      case (Inr au)
      show ?thesis
        using firebase_bootstrap_success [OF \<open>initializeApp sdk firebaseConfig = Inr app\<close>
            \<open>getAnalytics sdk app = Inr an\<close> Inr] db_warning_printed [OF assms]
        by (simp add: init_message_printed database_step_def split: sum.split)
    qed (simp add: firebase_bootstrap_abort \<open>initializeApp sdk firebaseConfig = Inr app\<close> Inr)
  qed (simp add: firebase_bootstrap_abort Inr)
qed (simp add: firebase_bootstrap_abort)

theorem firebase_output_unfiltered_witness:
  "cm_inv (manager console_boot) \<and>
   printed (snd (firebase_bootstrap (sample_sdk False) console_boot)) =
     [(CWarn, db_warning), (CLog, init_message)]"
proof -
  have h: "cm_inv (manager console_boot)" by (rule console_boot_inv)
  have r: "initializeApp (sample_sdk False) firebaseConfig = Inr ''new-data-8a3b4''"
    by (simp add: sample_sdk_def firebaseConfig_def)
  have "fst (firebase_bootstrap (sample_sdk False) console_boot) =
      Inr \<lparr>firebaseApp = ''new-data-8a3b4'', firebaseAuth = ''auth:new-data-8a3b4'',
           firebaseDatabase = None, firebaseAnalytics = ''analytics:new-data-8a3b4''\<rparr>"
    using firebase_bootstrap_success [OF r] by (simp add: sample_sdk_def database_step_def)
  then show ?thesis
    using firebase_output_unfiltered [OF h, of "sample_sdk False"] h
    by (simp add: console_boot_def)
qed

text \<open>Claim C29. Every log line of the adaptive performance system, tagged
  \<^verbatim>\<open>[AdaptivePerformance]\<close>, passes the console manager's category filter whatever its
  mode and categories: the tag's lower case contains none of \<^verbatim>\<open>booking\<close>,
  \<^verbatim>\<open>auth\<close>, \<^verbatim>\<open>firebase\<close>, \<^verbatim>\<open>ui\<close>.\<close>

theorem adaptive_log_lines_printed:
  "printed (console_log P (''[AdaptivePerformance]'' @ rest)) =
     printed P @ [(CLog, ''[AdaptivePerformance]'' @ rest)]"
proof -
  have "log_category (''[AdaptivePerformance]'' @ rest) = ''adaptiveperformance''"
    by (simp add: log_category_def js_simps)
  then show ?thesis
    by (simp add: console_log_def log_passes_def js_simps)
qed

end
